theory Spec2Isabelle
  imports Main "HOL-Library.Word"
begin

section \<open>The generate route: \<^verbatim>\<open>src/app/api/generate/route.ts\<close>\<close>

subsection \<open>JavaScript strings\<close>

text \<open>
  A JavaScript string is a sequence of UTF-16 code units; \<^verbatim>\<open>.length\<close>, \<^verbatim>\<open>trim\<close>,
  \<^verbatim>\<open>includes\<close> and the regular expression of the schema (which has no \<^verbatim>\<open>u\<close>
  flag) all work on code units. String literals of the source are ASCII and are
  written \<open>lit ''...''\<close>.
\<close>

type_synonym jstr = "16 word list"

definition lit :: "string \<Rightarrow> jstr" where
  "lit s = map of_char s"

text \<open>
  \<^verbatim>\<open>String.prototype.trim\<close> removes leading and trailing WhiteSpace and
  LineTerminator code units (ECMA-262): TAB, LF, VT, FF, CR, SP, NBSP, U+1680,
  U+2000..U+200A, U+2028, U+2029, U+202F, U+205F, U+3000 and U+FEFF.
\<close>

definition isWhiteSpace :: "16 word \<Rightarrow> bool" where
  "isWhiteSpace c \<longleftrightarrow>
     c = 0x9 \<or> c = 0xA \<or> c = 0xB \<or> c = 0xC \<or> c = 0xD \<or> c = 0x20 \<or> c = 0xA0 \<or>
     c = 0x1680 \<or> (0x2000 \<le> c \<and> c \<le> 0x200A) \<or> c = 0x2028 \<or> c = 0x2029 \<or>
     c = 0x202F \<or> c = 0x205F \<or> c = 0x3000 \<or> c = 0xFEFF"

definition trim :: "jstr \<Rightarrow> jstr" where
  "trim s = rev (dropWhile isWhiteSpace (rev (dropWhile isWhiteSpace s)))"

text \<open>\<^verbatim>\<open>s.includes(sub)\<close>: \<open>sub\<close> occurs in \<open>s\<close> as a contiguous block.\<close>

fun startsWith :: "jstr \<Rightarrow> jstr \<Rightarrow> bool" where
  "startsWith s [] = True"
| "startsWith [] (c # sub) = False"
| "startsWith (d # s) (c # sub) = (d = c \<and> startsWith s sub)"

fun includes_str :: "jstr \<Rightarrow> jstr \<Rightarrow> bool" where
  "includes_str [] sub = (sub = [])"
| "includes_str (c # s) sub = (startsWith (c # s) sub \<or> includes_str s sub)"

text \<open>
  The regular expression \<^verbatim>\<open>/^[a-z-]+$/i\<close>. Without the \<^verbatim>\<open>u\<close> flag, the
  \<^verbatim>\<open>i\<close> flag compares code units after \<^verbatim>\<open>toUpperCase\<close>, and never maps a
  code unit of 128 or more to one below 128: the class matches exactly the code units
  \<^verbatim>\<open>a-z\<close>, \<^verbatim>\<open>A-Z\<close> and the hyphen. Without the \<^verbatim>\<open>m\<close> flag, \<^verbatim>\<open>^\<close> and
  \<^verbatim>\<open>$\<close> match only at the two ends of the input.
\<close>

definition isVoiceChar :: "16 word \<Rightarrow> bool" where
  "isVoiceChar c \<longleftrightarrow> (0x61 \<le> c \<and> c \<le> 0x7A) \<or> (0x41 \<le> c \<and> c \<le> 0x5A) \<or> c = 0x2D"

definition voiceRegex :: "jstr \<Rightarrow> bool" where
  "voiceRegex s \<longleftrightarrow> s \<noteq> [] \<and> list_all isVoiceChar s"

subsection \<open>JSON values\<close>

text \<open>
  What \<^verbatim>\<open>request.json()\<close> resolves to. The handler never inspects a number, so
  the representation of numbers is the type parameter \<open>'n\<close>. An object is the list of
  its own properties; a parsed object has each key once.
\<close>

datatype 'n json =
    JNull
  | JBool bool
  | JNum 'n
  | JStr jstr
  | JArr "'n json list"
  | JObj "(jstr \<times> 'n json) list"

text \<open>\<^verbatim>\<open>data[key]\<close>: \<open>None\<close> is \<^verbatim>\<open>undefined\<close>.\<close>

definition getProp :: "(jstr \<times> 'n json) list \<Rightarrow> string \<Rightarrow> 'n json option" where
  "getProp kvs key = map_of kvs (lit key)"

subsection \<open>The request schema (zod)\<close>

datatype mode = Text | Url | Video

datatype zpath = PRoot | PMode | PVoice | PContent | PUrl | PVideoUrl

datatype zcode =
    InvalidType
  | InvalidEnumValue
  | TooSmall nat
  | TooBig nat
  | InvalidStringRegex
  | InvalidStringUrl

text \<open>
  An issue of a failed parse: where, which check, the message given in the schema (if
  any), and the value that was received (\<open>None\<close> is \<^verbatim>\<open>undefined\<close>).
\<close>

datatype 'n zissue =
  ZIssue (path: zpath) (code: zcode) (custom: "jstr option") (received: "'n json option")

record parsedData =
  mode :: mode
  voice :: jstr
  content :: "jstr option"
  url :: "jstr option"
  videoUrl :: "jstr option"

text \<open>
  The part of the library the schema depends on and the source does not fix is taken
  as a parameter: \<open>defaultMessage\<close> is zod's default error map (the message of an
  issue whose check names none), \<open>isUrl\<close> says whether \<^verbatim>\<open>new URL(s)\<close> succeeds.
\<close>

record 'n zod =
  defaultMessage :: "'n zissue \<Rightarrow> jstr"
  isUrl :: "jstr \<Rightarrow> bool"

definition message :: "'n zod \<Rightarrow> 'n zissue \<Rightarrow> jstr" where
  "message z i = (case custom i of Some m \<Rightarrow> m | None \<Rightarrow> defaultMessage z i)"

text \<open>\<^verbatim>\<open>mode: z.enum(["text", "url", "video"])\<close>; the key is required.\<close>

definition parseMode :: "'n json option \<Rightarrow> 'n zissue list + mode" where
  "parseMode v =
     (case v of
        Some (JStr s) \<Rightarrow>
          if s = lit ''text'' then Inr Text
          else if s = lit ''url'' then Inr Url
          else if s = lit ''video'' then Inr Video
          else Inl [ZIssue PMode InvalidEnumValue None v]
      | _ \<Rightarrow> Inl [ZIssue PMode InvalidType None v])"

text \<open>
  \<^verbatim>\<open>z.string().min(2).max(32).regex(/^[a-z-]+$/i, "Voice id must be ...")\<close>: a
  value that is not a string is one issue and no check runs; on a string every check
  runs, in the order written, and each failure adds its issue.
\<close>

definition voiceChecks :: "jstr \<Rightarrow> 'n zissue list" where
  "voiceChecks s =
     (if length s < 2 then [ZIssue PVoice (TooSmall 2) None (Some (JStr s))] else []) @
     (if length s > 32 then [ZIssue PVoice (TooBig 32) None (Some (JStr s))] else []) @
     (if \<not> voiceRegex s
      then [ZIssue PVoice InvalidStringRegex
              (Some (lit ''Voice id must be alphanumeric or hyphenated'')) (Some (JStr s))]
      else [])"

definition parseVoiceString :: "'n json option \<Rightarrow> 'n zissue list + jstr" where
  "parseVoiceString v =
     (case v of
        Some (JStr s) \<Rightarrow> (if voiceChecks s = ([] :: 'n zissue list) then Inr s
                           else Inl (voiceChecks s))
      | _ \<Rightarrow> Inl [ZIssue PVoice InvalidType None v])"

text \<open>\<^verbatim>\<open>.default("alloy")\<close>: \<^verbatim>\<open>undefined\<close> is replaced and then parsed.\<close>

definition parseVoice :: "'n json option \<Rightarrow> 'n zissue list + jstr" where
  "parseVoice v =
     (case v of
        None \<Rightarrow> parseVoiceString (Some (JStr (lit ''alloy'')))
      | Some x \<Rightarrow> parseVoiceString (Some x))"

text \<open>
  \<^verbatim>\<open>content: z.string().min(50, "Provide at least 50 characters of text.")\<close>, made
  optional by \<^verbatim>\<open>.partial\<close>: \<^verbatim>\<open>undefined\<close> passes.
\<close>

definition parseContent :: "'n json option \<Rightarrow> 'n zissue list + jstr option" where
  "parseContent v =
     (case v of
        None \<Rightarrow> Inr None
      | Some (JStr s) \<Rightarrow>
          if length s < 50
          then Inl [ZIssue PContent (TooSmall 50)
                      (Some (lit ''Provide at least 50 characters of text.'')) v]
          else Inr (Some s)
      | Some _ \<Rightarrow> Inl [ZIssue PContent InvalidType None v])"

text \<open>\<^verbatim>\<open>z.string().url()\<close>, made optional by \<^verbatim>\<open>.partial\<close>.\<close>

definition parseUrl :: "'n zod \<Rightarrow> zpath \<Rightarrow> 'n json option \<Rightarrow> 'n zissue list + jstr option" where
  "parseUrl z p v =
     (case v of
        None \<Rightarrow> Inr None
      | Some (JStr s) \<Rightarrow>
          if isUrl z s then Inr (Some s) else Inl [ZIssue p InvalidStringUrl None v]
      | Some _ \<Rightarrow> Inl [ZIssue p InvalidType None v])"

definition issuesOf :: "'n zissue list + 'a \<Rightarrow> 'n zissue list" where
  "issuesOf r = (case r of Inl is \<Rightarrow> is | Inr _ \<Rightarrow> [])"

text \<open>
  \<^verbatim>\<open>requestSchema.safeParse(json)\<close>: a value that is not an object is one issue;
  on an object every key of the shape is parsed, in the order of the shape, unknown
  keys are dropped, and the issues are collected in that order.
\<close>

definition safeParse :: "'n zod \<Rightarrow> 'n json \<Rightarrow> 'n zissue list + parsedData" where
  "safeParse z j =
     (case j of
        JObj kvs \<Rightarrow>
          (let m = parseMode (getProp kvs ''mode'');
               v = parseVoice (getProp kvs ''voice'');
               c = parseContent (getProp kvs ''content'');
               u = parseUrl z PUrl (getProp kvs ''url'');
               w = parseUrl z PVideoUrl (getProp kvs ''videoUrl'')
           in case (m, v, c, u, w) of
                (Inr m', Inr v', Inr c', Inr u', Inr w') \<Rightarrow>
                  Inr \<lparr>mode = m', voice = v', content = c', url = u', videoUrl = w'\<rparr>
              | _ \<Rightarrow> Inl (issuesOf m @ issuesOf v @ issuesOf c @ issuesOf u @ issuesOf w))
      | _ \<Rightarrow> Inl [ZIssue PRoot InvalidType None (Some j)])"

subsection \<open>Collaborators, responses and the trace of calls\<close>

text \<open>
  A thrown value: an \<^verbatim>\<open>Error\<close> with its message and stack, or anything else.
\<close>

datatype thrown = Error (errorMessage: jstr) (stack: jstr) | NotAnError

text \<open>
  The modules \<^verbatim>\<open>@/lib/content\<close>, \<^verbatim>\<open>@/lib/prompt\<close> and \<^verbatim>\<open>@/lib/openai\<close> and
  the OpenAI client are outside the handler: each call is a parameter that either
  throws (\<open>Inl\<close>) or returns (\<open>Inr\<close>). An extractor returns a string or
  \<^verbatim>\<open>null\<close>; \<^verbatim>\<open>output_text\<close> may be \<^verbatim>\<open>undefined\<close>; \<open>speechCreate\<close> gives,
  when it returns, the outcome of \<^verbatim>\<open>speech.arrayBuffer()\<close>.
\<close>

record env =
  extractFromUrl :: "jstr \<Rightarrow> thrown + jstr option"
  extractFromYouTube :: "jstr \<Rightarrow> thrown + jstr option"
  getOpenAIClient :: "thrown + unit"
  buildScriptPrompt :: "jstr \<Rightarrow> mode \<Rightarrow> jstr option \<Rightarrow> thrown + jstr"
  responsesCreate :: "jstr \<Rightarrow> thrown + jstr option"
  speechCreate :: "jstr \<Rightarrow> jstr \<Rightarrow> thrown + (thrown + 8 word list)"
  toBase64 :: "8 word list \<Rightarrow> jstr"

datatype call =
    ExtractFromUrl jstr
  | ExtractFromYouTube jstr
  | GetOpenAIClient
  | BuildScriptPrompt
  | ResponsesCreate jstr
  | SpeechCreate jstr jstr
  | ArrayBuffer
  | ConsoleError thrown

datatype payload = ScriptAudio (script: jstr) (audioBase64: jstr) | ErrorBody (error: jstr)

record response =
  status :: nat
  body :: payload

text \<open>\<^verbatim>\<open>NextResponse.json({ error }, { status })\<close>.\<close>

definition errorResponse :: "jstr \<Rightarrow> nat \<Rightarrow> response" where
  "errorResponse msg st = \<lparr>status = st, body = ErrorBody msg\<rparr>"

text \<open>\<^verbatim>\<open>NextResponse.json({ script, audioBase64 })\<close>: the status defaults to 200.\<close>

definition okResponse :: "jstr \<Rightarrow> jstr \<Rightarrow> response" where
  "okResponse s a = \<lparr>status = 200, body = ScriptAudio s a\<rparr>"

text \<open>
  The result of the \<^verbatim>\<open>try\<close> block: a thrown value or the response returned,
  with the calls made so far, oldest first.
\<close>

type_synonym attempt = "(thrown + response) \<times> call list"

definition returns :: "response \<Rightarrow> attempt" where
  "returns r = (Inr r, [])"

text \<open>\<^verbatim>\<open>await\<close> of a call \<open>c\<close> with outcome \<open>r\<close>, followed by the rest of the block.\<close>

definition await :: "call \<Rightarrow> thrown + 'a \<Rightarrow> ('a \<Rightarrow> attempt) \<Rightarrow> attempt" where
  "await c r k =
     (case r of
        Inl t \<Rightarrow> (Inl t, [c])
      | Inr x \<Rightarrow> (case k x of (res, tr) \<Rightarrow> (res, c # tr)))"

text \<open>\<^verbatim>\<open>!s\<close> for \<^verbatim>\<open>s: string | null | undefined\<close>.\<close>

definition falsy :: "jstr option \<Rightarrow> bool" where
  "falsy s = (case s of None \<Rightarrow> True | Some x \<Rightarrow> x = [])"

subsection \<open>The handler\<close>

text \<open>Lines 118 to 130: synthesis and the success response.\<close>

definition synthesize :: "env \<Rightarrow> jstr \<Rightarrow> jstr \<Rightarrow> attempt" where
  "synthesize e v scr =
     await (SpeechCreate v scr) (speechCreate e v scr) (\<lambda>speech.
     await ArrayBuffer speech (\<lambda>audioBuffer.
     returns (okResponse scr (toBase64 e audioBuffer))))"

text \<open>Lines 81 to 116: the client, the prompt, the script.\<close>

definition generate :: "env \<Rightarrow> mode \<Rightarrow> jstr \<Rightarrow> jstr \<Rightarrow> jstr option \<Rightarrow> attempt" where
  "generate e m v sourceText origin =
     await GetOpenAIClient (getOpenAIClient e) (\<lambda>openai.
     await BuildScriptPrompt (buildScriptPrompt e sourceText m origin) (\<lambda>scriptPrompt.
     await (ResponsesCreate scriptPrompt) (responsesCreate e scriptPrompt) (\<lambda>output_text.
       (case map_option trim output_text of
          None \<Rightarrow>
            returns (errorResponse
              (lit ''Failed to generate a script. Try again with different source material.'') 502)
        | Some scr \<Rightarrow>
            if scr = [] \<or> length scr = 0
            then returns (errorResponse
              (lit ''Failed to generate a script. Try again with different source material.'') 502)
            else synthesize e v scr))))"

text \<open>Lines 74 to 79: the check of the source text, then the rest of the pipeline.\<close>

definition withSource :: "env \<Rightarrow> mode \<Rightarrow> jstr \<Rightarrow> jstr option \<Rightarrow> jstr option \<Rightarrow> attempt" where
  "withSource e m v sourceText origin =
     (if falsy sourceText
      then returns (errorResponse (lit ''Unable to derive source material for the podcast.'') 422)
      else generate e m v (the sourceText) origin)"

text \<open>Lines 39 to 72: the dispatch on the mode of a parsed request.\<close>

definition dispatch :: "env \<Rightarrow> parsedData \<Rightarrow> attempt" where
  "dispatch e d =
     (case mode d of
        Text \<Rightarrow>
          (let sourceText = trim (case content d of None \<Rightarrow> [] | Some c \<Rightarrow> c)
           in if length sourceText < 50
              then returns (errorResponse (lit ''Please provide at least 50 characters of text.'') 400)
              else withSource e Text (voice d) (Some sourceText) None)
      | Url \<Rightarrow>
          (if falsy (url d)
           then returns (errorResponse (lit ''Missing URL for webpage mode.'') 400)
           else await (ExtractFromUrl (the (url d))) (extractFromUrl e (the (url d)))
                  (\<lambda>sourceText. withSource e Url (voice d) sourceText (url d)))
      | Video \<Rightarrow>
          (if falsy (videoUrl d)
           then returns (errorResponse (lit ''Missing video URL for YouTube mode.'') 400)
           else await (ExtractFromYouTube (the (videoUrl d))) (extractFromYouTube e (the (videoUrl d)))
                  (\<lambda>sourceText. withSource e Video (voice d) sourceText (videoUrl d))))"

text \<open>
  Lines 27 to 37: the body of the \<^verbatim>\<open>try\<close> block. \<open>req\<close> is the outcome of
  \<^verbatim>\<open>await request.json()\<close>, which throws on a body that is not JSON.
\<close>

definition tryBlock :: "'n zod \<Rightarrow> env \<Rightarrow> thrown + 'n json \<Rightarrow> attempt" where
  "tryBlock z e req =
     (case req of
        Inl t \<Rightarrow> (Inl t, [])
      | Inr json \<Rightarrow>
          (case safeParse z json of
             Inl issues \<Rightarrow>
               returns (errorResponse
                 (case issues of
                    [] \<Rightarrow> lit ''Invalid request payload.''
                  | firstIssue # _ \<Rightarrow> message z firstIssue) 400)
           | Inr d \<Rightarrow> dispatch e d))"

text \<open>Lines 131 to 142: the \<^verbatim>\<open>catch\<close> block.\<close>

definition caughtMessage :: "thrown \<Rightarrow> jstr" where
  "caughtMessage t =
     (case t of Error m _ \<Rightarrow> m | NotAnError \<Rightarrow> lit ''Unexpected server error.'')"

definition caughtStatus :: "jstr \<Rightarrow> nat" where
  "caughtStatus msg =
     (if includes_str msg (lit ''OPENAI_API_KEY'') \<or> includes_str msg (lit ''Failed to fetch'')
      then 500 else 400)"

definition catchBlock :: "thrown \<Rightarrow> response \<times> call list" where
  "catchBlock t =
     (errorResponse (caughtMessage t) (caughtStatus (caughtMessage t)), [ConsoleError t])"

text \<open>The handler: the response and the calls it made.\<close>

definition POST :: "'n zod \<Rightarrow> env \<Rightarrow> thrown + 'n json \<Rightarrow> response \<times> call list" where
  "POST z e req =
     (case tryBlock z e req of
        (Inr r, tr) \<Rightarrow> (r, tr)
      | (Inl t, tr) \<Rightarrow> (case catchBlock t of (r, tr') \<Rightarrow> (r, tr @ tr')))"

subsection \<open>What the specification's words mean on this model\<close>

text \<open>The statuses and bodies the specification lists for a response.\<close>

definition listed :: "response \<Rightarrow> bool" where
  "listed r \<longleftrightarrow>
     (status r = 200 \<and> (\<exists>s a. body r = ScriptAudio s a)) \<or>
     ((status r = 400 \<or> status r = 422 \<or> status r = 502 \<or> status r = 500) \<and>
      (\<exists>m. body r = ErrorBody m))"

text \<open>
  The pattern as the specification writes it, \<^verbatim>\<open>^[a-z-]+$\<close> with no flag: lower-case
  letters and hyphens only.
\<close>

definition specVoicePattern :: "jstr \<Rightarrow> bool" where
  "specVoicePattern s \<longleftrightarrow> s \<noteq> [] \<and> list_all (\<lambda>c. (0x61 \<le> c \<and> c \<le> 0x7A) \<or> c = 0x2D) s"

text \<open>
  A voice value the schema accepts: a string of 2 to 32 code units, letters of either
  case and hyphens.
\<close>

definition validVoice :: "'n json \<Rightarrow> bool" where
  "validVoice v =
     (case v of JStr s \<Rightarrow> 2 \<le> length s \<and> length s \<le> 32 \<and> voiceRegex s | _ \<Rightarrow> False)"

text \<open>
  A field the schema accepts, in the words of the specification: \<open>mode\<close> is one of the
  three strings, \<open>voice\<close> is absent or valid, \<open>content\<close> is absent or a string of at
  least 50 code units, \<open>url\<close> and \<open>videoUrl\<close> are absent or strings that are URLs.
\<close>

definition modeAccepted :: "'n json option \<Rightarrow> bool" where
  "modeAccepted v \<longleftrightarrow>
     v = Some (JStr (lit ''text'')) \<or> v = Some (JStr (lit ''url'')) \<or> v = Some (JStr (lit ''video''))"

definition voiceAccepted :: "'n json option \<Rightarrow> bool" where
  "voiceAccepted v = (case v of None \<Rightarrow> True | Some x \<Rightarrow> validVoice x)"

definition contentAccepted :: "'n json option \<Rightarrow> bool" where
  "contentAccepted v =
     (case v of None \<Rightarrow> True | Some (JStr s) \<Rightarrow> 50 \<le> length s | Some _ \<Rightarrow> False)"

definition urlAccepted :: "'n zod \<Rightarrow> 'n json option \<Rightarrow> bool" where
  "urlAccepted z v =
     (case v of None \<Rightarrow> True | Some (JStr s) \<Rightarrow> isUrl z s | Some _ \<Rightarrow> False)"

text \<open>The calls of the generation and synthesis capabilities.\<close>

definition generationCall :: "call \<Rightarrow> bool" where
  "generationCall c =
     (case c of ResponsesCreate _ \<Rightarrow> True | SpeechCreate _ _ \<Rightarrow> True | _ \<Rightarrow> False)"

text \<open>The message of the 502 response (lines 111 and 112).\<close>

definition failedScript :: jstr where
  "failedScript = lit ''Failed to generate a script. Try again with different source material.''"

subsection \<open>Sample inputs\<close>

text \<open>The parameters of the schema.\<close>

definition sampleZod :: "nat zod" where
  "sampleZod = \<lparr>defaultMessage = (\<lambda>i. lit ''Invalid input''),
                 isUrl = (\<lambda>s. startsWith s (lit ''https://''))\<rparr>"

text \<open>Strings.\<close>

definition sampleText :: jstr where
  "sampleText = lit ''The quick brown fox jumps over the lazy dog by the river.''"

definition sampleScript :: jstr where
  "sampleScript = lit ''Welcome to the show.''"

definition sampleUrl :: jstr where
  "sampleUrl = lit ''https://example.invalid/page''"


text \<open>Thrown values.\<close>

definition crash :: thrown where
  "crash = Error (lit ''Cannot read properties of undefined'')
                 (lit ''TypeError: Cannot read properties of undefined at buildScriptPrompt'')"

definition badJson :: thrown where
  "badJson = Error (lit ''Unexpected end of JSON input'') (lit ''SyntaxError: Unexpected end of JSON input'')"

definition fetchFailed :: thrown where
  "fetchFailed = Error (lit ''Failed to fetch the page'') (lit ''Error: Failed to fetch the page'')"

definition noTranscript :: thrown where
  "noTranscript = Error (lit ''Transcript is disabled on this video'')
                        (lit ''Error: Transcript is disabled on this video'')"

definition rateLimited :: thrown where
  "rateLimited = Error (lit ''429 Rate limit reached'') (lit ''Error: 429 Rate limit reached'')"

text \<open>
  What the OpenAI client throws when the service cannot be reached (its
  \<^verbatim>\<open>APIConnectionError\<close>): an unreachable-network fault.
\<close>

definition connectionError :: thrown where
  "connectionError = Error (lit ''Connection error.'') (lit ''Error: Connection error.'')"

text \<open>Collaborators: all of them succeed in \<open>okEnv\<close>; each other one differs in one place.\<close>

definition okEnv :: env where
  "okEnv = \<lparr>extractFromUrl = (\<lambda>u. Inr (Some sampleText)),
            extractFromYouTube = (\<lambda>u. Inr (Some sampleText)),
            getOpenAIClient = Inr (),
            buildScriptPrompt = (\<lambda>s m origin. Inr s),
            responsesCreate = (\<lambda>p. Inr (Some sampleScript)),
            speechCreate = (\<lambda>v s. Inr (Inr [0x49, 0x44, 0x33])),
            toBase64 = (\<lambda>bytes. lit ''SUQz'')\<rparr>"

definition noKeyEnv :: env where
  "noKeyEnv = okEnv\<lparr>getOpenAIClient :=
     Inl (Error (lit ''Missing OPENAI_API_KEY environment variable'')
                (lit ''Error: Missing OPENAI_API_KEY environment variable at getOpenAIClient''))\<rparr>"

definition crashEnv :: env where
  "crashEnv = okEnv\<lparr>buildScriptPrompt := (\<lambda>s m origin. Inl crash)\<rparr>"

definition emptyExtractEnv :: env where
  "emptyExtractEnv = okEnv\<lparr>extractFromUrl := (\<lambda>u. Inr None),
                             extractFromYouTube := (\<lambda>u. Inr (Some []))\<rparr>"

definition extractThrowsEnv :: env where
  "extractThrowsEnv = okEnv\<lparr>extractFromUrl := (\<lambda>u. Inl fetchFailed),
                              extractFromYouTube := (\<lambda>u. Inl noTranscript)\<rparr>"

definition emptyScriptEnv :: env where
  "emptyScriptEnv = okEnv\<lparr>responsesCreate := (\<lambda>p. Inr (Some (lit ''   '')))\<rparr>"

definition generationThrowsEnv :: env where
  "generationThrowsEnv = okEnv\<lparr>responsesCreate := (\<lambda>p. Inl rateLimited)\<rparr>"

definition speechThrowsEnv :: env where
  "speechThrowsEnv = okEnv\<lparr>speechCreate := (\<lambda>v s. Inl rateLimited)\<rparr>"

definition unreachableEnv :: env where
  "unreachableEnv = okEnv\<lparr>responsesCreate := (\<lambda>p. Inl connectionError)\<rparr>"

text \<open>Payloads.\<close>

definition textRequest :: "nat json" where
  "textRequest = JObj [(lit ''mode'', JStr (lit ''text'')), (lit ''content'', JStr sampleText)]"

definition urlRequest :: "nat json" where
  "urlRequest = JObj [(lit ''mode'', JStr (lit ''url'')), (lit ''url'', JStr sampleUrl)]"

definition videoRequest :: "nat json" where
  "videoRequest = JObj [(lit ''mode'', JStr (lit ''video'')), (lit ''videoUrl'', JStr sampleUrl)]"


definition noUrlRequest :: "nat json" where
  "noUrlRequest = JObj [(lit ''mode'', JStr (lit ''url''))]"

definition noVideoUrlRequest :: "nat json" where
  "noVideoUrlRequest = JObj [(lit ''mode'', JStr (lit ''video''))]"

definition noContentRequest :: "nat json" where
  "noContentRequest = JObj [(lit ''mode'', JStr (lit ''text''))]"

definition upperVoiceRequest :: "nat json" where
  "upperVoiceRequest =
     JObj [(lit ''mode'', JStr (lit ''text'')), (lit ''voice'', JStr (lit ''ALLOY'')),
           (lit ''content'', JStr sampleText)]"

definition badVoiceShortText :: "nat json" where
  "badVoiceShortText =
     JObj [(lit ''mode'', JStr (lit ''text'')), (lit ''voice'', JStr (lit ''a1'')),
           (lit ''content'', JStr (lit ''short''))]"


definition badVoiceUrl :: "nat json" where
  "badVoiceUrl = JObj [(lit ''mode'', JStr (lit ''url'')), (lit ''voice'', JStr (lit ''nova-2''))]"

definition badVoiceNoContent :: "nat json" where
  "badVoiceNoContent =
     JObj [(lit ''mode'', JStr (lit ''text'')), (lit ''voice'', JStr (lit ''voice_1''))]"

section \<open>Properties\<close>

subsection \<open>Strings\<close>

lemma unat_of_char: "unat (of_char c :: 16 word) = of_char c"
proof -
  have "(of_char c :: nat) < 256"
    using of_char_mod_256 [of c, where ?'a = nat]
    by (metis mod_less_divisor zero_less_numeral)
  also have "(256 :: nat) < 2 ^ 16"
    by simp
  finally have "(of_char c :: nat) < 2 ^ 16" .
  then have "(of_char c :: nat) mod 2 ^ 16 = of_char c"
    by (rule mod_less)
  moreover have "(of_char c :: 16 word) = of_nat (of_char c)"
    by (simp add: of_nat_of_char)
  ultimately show ?thesis
    by (simp only: unat_of_nat len_of_numeral_defs) simp
qed

lemma of_char_word_eq [simp]: "(of_char c :: 16 word) = of_char d \<longleftrightarrow> c = d"
proof
  assume "(of_char c :: 16 word) = of_char d"
  then have "unat (of_char c :: 16 word) = unat (of_char d :: 16 word)"
    by simp
  then show "c = d"
    by (simp add: unat_of_char)
qed simp

lemma lit_eq_iff [simp]: "lit s = lit t \<longleftrightarrow> s = t"
  by (auto simp: lit_def inj_on_def intro!: inj_map_eq_map [THEN iffD1] injI)

text \<open>
  \<open>includes_str\<close> is the occurrence of a contiguous block, and trimming never
  lengthens a string.
\<close>

lemma startsWith_iff: "startsWith s sub \<longleftrightarrow> (\<exists>ss. s = sub @ ss)"
  by (induction s sub rule: startsWith.induct) auto

lemma includes_str_iff: "includes_str s sub \<longleftrightarrow> (\<exists>ps ss. s = ps @ sub @ ss)"
proof (induction s)
  case Nil
  then show ?case by auto
next
  case (Cons c s)
  show ?case
  proof
    assume "includes_str (c # s) sub"
    then consider "startsWith (c # s) sub" | "includes_str s sub"
      by auto
    then show "\<exists>ps ss. c # s = ps @ sub @ ss"
    proof cases
      case 1
      then obtain ss where "c # s = [] @ sub @ ss"
        by (auto simp: startsWith_iff)
      then show ?thesis by blast
    next
      case 2
      then obtain ps ss where "s = ps @ sub @ ss"
        using Cons.IH by blast
      then have "c # s = (c # ps) @ sub @ ss"
        by simp
      then show ?thesis by blast
    qed
  next
    assume "\<exists>ps ss. c # s = ps @ sub @ ss"
    then obtain ps ss where eq: "c # s = ps @ sub @ ss"
      by blast
    show "includes_str (c # s) sub"
    proof (cases ps)
      case Nil
      with eq have "startsWith (c # s) sub"
        by (auto simp: startsWith_iff)
      then show ?thesis by simp
    next
      case (Cons p ps')
      with eq have "s = ps' @ sub @ ss"
        by simp
      then have "includes_str s sub"
        using Cons.IH by blast
      then show ?thesis by simp
    qed
  qed
qed

lemma trim_length: "length (trim s) \<le> length s"
proof -
  have "length (dropWhile isWhiteSpace (rev (dropWhile isWhiteSpace s)))
      \<le> length (rev (dropWhile isWhiteSpace s))"
    by (rule length_dropWhile_le)
  also have "\<dots> \<le> length s"
    by (simp add: length_dropWhile_le)
  finally show ?thesis
    by (simp add: trim_def)
qed

subsection \<open>The shape of every response\<close>

lemma await_Inl [simp]: "await c (Inl t) k = (Inl t, [c])"
  by (simp add: await_def)

lemma await_Inr [simp]: "await c (Inr x) k = (fst (k x), c # snd (k x))"
  by (simp add: await_def split: prod.splits)

lemma fst_await_Inr:
  "fst (await c r k) = Inr x \<Longrightarrow> \<exists>v. r = Inr v \<and> fst (k v) = Inr x"
  by (cases r) simp_all

lemma listed_error:
  "st = 400 \<or> st = 422 \<or> st = 502 \<or> st = 500 \<Longrightarrow> listed (errorResponse m st)"
  by (auto simp: listed_def errorResponse_def)

lemma listed_ok: "listed (okResponse s a)"
  by (simp add: listed_def okResponse_def)

lemma synthesize_listed: "fst (synthesize e v s) = Inr r \<Longrightarrow> listed r"
  unfolding synthesize_def
  by (auto dest!: fst_await_Inr simp: returns_def listed_ok)

lemma generate_listed: "fst (generate e m v src origin) = Inr r \<Longrightarrow> listed r"
  unfolding generate_def
  by (auto dest!: fst_await_Inr simp: returns_def listed_error
      split: option.splits if_splits dest: synthesize_listed)

lemma withSource_listed: "fst (withSource e m v src origin) = Inr r \<Longrightarrow> listed r"
  unfolding withSource_def
  by (auto simp: returns_def listed_error split: if_splits dest: generate_listed)

lemma dispatch_listed: "fst (dispatch e d) = Inr r \<Longrightarrow> listed r"
  unfolding dispatch_def
  by (auto dest!: fst_await_Inr simp: returns_def listed_error Let_def
      split: mode.splits if_splits dest: withSource_listed)

lemma tryBlock_listed: "fst (tryBlock z e req) = Inr r \<Longrightarrow> listed r"
  unfolding tryBlock_def
  by (auto simp: returns_def listed_error split: sum.splits dest: dispatch_listed)

lemma caughtStatus_cases: "caughtStatus m = 500 \<or> caughtStatus m = 400"
  by (simp add: caughtStatus_def)

lemma catchBlock_listed: "listed (fst (catchBlock t))"
  using caughtStatus_cases [of "caughtMessage t"]
  by (auto simp: catchBlock_def intro: listed_error)

lemma POST_cases:
  "POST z e req =
     (case fst (tryBlock z e req) of
        Inr r \<Rightarrow> (r, snd (tryBlock z e req))
      | Inl t \<Rightarrow> (errorResponse (caughtMessage t) (caughtStatus (caughtMessage t)),
                  snd (tryBlock z e req) @ [ConsoleError t]))"
  by (simp add: POST_def catchBlock_def split: prod.splits sum.splits)

text \<open>
  Claim C1. Whatever \<^verbatim>\<open>request.json()\<close> gives (a JSON value or a throw) and
  however the collaborators answer, the handler gives one response, and it is either
  status 200 with a body of \<open>script\<close> and \<open>audioBase64\<close>, or a body
  \<open>{ error }\<close> with status 400, 422, 502 or 500. (Every awaited call is taken to
  settle: it returns or it throws.)
\<close>

theorem POST_resolves:
  "(status (fst (POST z e req)) = 200 \<and>
      (\<exists>s a. body (fst (POST z e req)) = ScriptAudio s a)) \<or>
   ((status (fst (POST z e req)) = 400 \<or> status (fst (POST z e req)) = 422 \<or>
     status (fst (POST z e req)) = 502 \<or> status (fst (POST z e req)) = 500) \<and>
      (\<exists>m. body (fst (POST z e req)) = ErrorBody m))"
proof (cases "fst (tryBlock z e req)")
  case (Inl t)
  then have "fst (POST z e req) = fst (catchBlock t)"
    by (simp add: POST_cases catchBlock_def)
  then show ?thesis
    using catchBlock_listed [of t] by (simp add: listed_def)
next
  case (Inr r)
  then have "fst (POST z e req) = r"
    by (simp add: POST_cases)
  then show ?thesis
    using tryBlock_listed [OF Inr] by (simp add: listed_def)
qed

subsection \<open>Schema validation\<close>

lemma issuesOf_simps [simp]: "issuesOf (Inl is) = is" "issuesOf (Inr x) = []"
  by (simp_all add: issuesOf_def)

lemma parseMode_issues: "parseMode v = Inl is \<Longrightarrow> is \<noteq> []"
  by (auto simp: parseMode_def split: option.splits json.splits if_splits)

lemma parseVoiceString_issues: "parseVoiceString v = Inl is \<Longrightarrow> is \<noteq> []"
  by (auto simp: parseVoiceString_def split: option.splits json.splits if_splits)

lemma parseVoice_issues: "parseVoice v = Inl is \<Longrightarrow> is \<noteq> []"
  by (auto simp: parseVoice_def split: option.splits dest: parseVoiceString_issues)

lemma parseContent_issues: "parseContent v = Inl is \<Longrightarrow> is \<noteq> []"
  by (auto simp: parseContent_def split: option.splits json.splits if_splits)

lemma parseUrl_issues: "parseUrl z p v = Inl is \<Longrightarrow> is \<noteq> []"
  by (auto simp: parseUrl_def split: option.splits json.splits if_splits)

lemma safeParse_obj_Inr:
  "safeParse z (JObj kvs) = Inr d \<longleftrightarrow>
     parseMode (getProp kvs ''mode'') = Inr (mode d) \<and>
     parseVoice (getProp kvs ''voice'') = Inr (voice d) \<and>
     parseContent (getProp kvs ''content'') = Inr (content d) \<and>
     parseUrl z PUrl (getProp kvs ''url'') = Inr (url d) \<and>
     parseUrl z PVideoUrl (getProp kvs ''videoUrl'') = Inr (videoUrl d)"
  by (cases d) (auto simp: safeParse_def Let_def split: sum.splits)

lemma safeParse_obj_Inl:
  "safeParse z (JObj kvs) = Inl is \<Longrightarrow>
     is = issuesOf (parseMode (getProp kvs ''mode'')) @
          issuesOf (parseVoice (getProp kvs ''voice'')) @
          issuesOf (parseContent (getProp kvs ''content'')) @
          issuesOf (parseUrl z PUrl (getProp kvs ''url'')) @
          issuesOf (parseUrl z PVideoUrl (getProp kvs ''videoUrl''))"
  by (auto simp: safeParse_def Let_def split: sum.splits)

lemma safeParse_issues: "safeParse z j = Inl is \<Longrightarrow> is \<noteq> []"
proof (cases j)
  case (JObj kvs)
  assume a: "safeParse z j = Inl is"
  show ?thesis
    using a unfolding JObj safeParse_def Let_def
    by (auto split: sum.splits
        dest: parseMode_issues parseVoice_issues parseContent_issues parseUrl_issues)
qed (auto simp: safeParse_def)

lemma tryBlock_invalid:
  "safeParse z j = Inl (i # is) \<Longrightarrow>
     tryBlock z e (Inr j) = (Inr (errorResponse (message z i) 400), [])"
  by (simp add: tryBlock_def returns_def)

lemma tryBlock_valid: "safeParse z j = Inr d \<Longrightarrow> tryBlock z e (Inr j) = dispatch e d"
  by (simp add: tryBlock_def)

lemma POST_invalid:
  "safeParse z j = Inl (i # is) \<Longrightarrow> POST z e (Inr j) = (errorResponse (message z i) 400, [])"
  by (simp add: POST_cases tryBlock_invalid)

lemma first_issue:
  assumes "safeParse z j = Inl issues"
  shows "issues \<noteq> [] \<and> POST z e (Inr j) = (errorResponse (message z (hd issues)) 400, [])"
proof -
  from assms have ne: "issues \<noteq> []"
    by (rule safeParse_issues)
  then obtain i rest where "issues = i # rest"
    by (cases issues) auto
  with assms ne show ?thesis
    by (simp add: POST_invalid)
qed

lemma parseMode_text [simp]: "parseMode (Some (JStr (lit ''text''))) = Inr Text"
  by (simp add: parseMode_def)

lemma parseMode_url [simp]: "parseMode (Some (JStr (lit ''url''))) = Inr Url"
  by (simp add: parseMode_def lit_def)

lemma parseMode_video [simp]: "parseMode (Some (JStr (lit ''video''))) = Inr Video"
  by (simp add: parseMode_def lit_def)

lemma voiceChecks_empty:
  "voiceChecks s = ([] :: 'n zissue list) \<longleftrightarrow> 2 \<le> length s \<and> length s \<le> 32 \<and> voiceRegex s"
  by (auto simp: voiceChecks_def)

lemma parseVoice_None [simp]: "parseVoice None = Inr (lit ''alloy'')"
  by (simp add: parseVoice_def parseVoiceString_def voiceChecks_empty voiceRegex_def
      isVoiceChar_def lit_def)

lemma parseVoice_Some:
  "parseVoice (Some x) = (if validVoice x then Inr (case x of JStr s \<Rightarrow> s) else
     Inl (case x of JStr s \<Rightarrow> voiceChecks s | _ \<Rightarrow> [ZIssue PVoice InvalidType None (Some x)]))"
  by (cases x) (auto simp: parseVoice_def parseVoiceString_def validVoice_def voiceChecks_empty)

lemma issuesOf_parseVoice: "issuesOf (parseVoice v) = [] \<longleftrightarrow> voiceAccepted v"
proof (cases v)
  case None
  then show ?thesis by (simp add: voiceAccepted_def)
next
  case (Some x)
  then show ?thesis
    by (cases x) (auto simp: voiceAccepted_def parseVoice_Some validVoice_def voiceChecks_empty)
qed

lemma issuesOf_parseContent: "issuesOf (parseContent v) = [] \<longleftrightarrow> contentAccepted v"
  by (auto simp: parseContent_def contentAccepted_def split: option.splits json.splits)

lemma issuesOf_parseUrl: "issuesOf (parseUrl z p v) = [] \<longleftrightarrow> urlAccepted z v"
  by (auto simp: parseUrl_def urlAccepted_def split: option.splits json.splits)

lemma status_errorResponse [simp]: "status (errorResponse m st) = st"
  and body_errorResponse [simp]: "body (errorResponse m st) = ErrorBody m"
  by (simp_all add: errorResponse_def)

lemma POST_invalid_status:
  assumes "safeParse z j = Inl is"
  shows "status (fst (POST z e (Inr j))) = 400 \<and> snd (POST z e (Inr j)) = []"
  using first_issue [OF assms, of e] by simp


lemma dispatch_text_short:
  "mode d = Text \<Longrightarrow> length (trim (case content d of None \<Rightarrow> [] | Some c \<Rightarrow> c)) < 50 \<Longrightarrow>
     dispatch e d =
       (Inr (errorResponse (lit ''Please provide at least 50 characters of text.'') 400), [])"
  by (simp add: dispatch_def returns_def)

lemma POST_valid:
  "safeParse z j = Inr d \<Longrightarrow> dispatch e d = (Inr r, tr) \<Longrightarrow> POST z e (Inr j) = (r, tr)"
  by (simp add: POST_cases tryBlock_valid)

lemmas schema_eval =
  safeParse_def parseMode_def parseVoice_def parseVoiceString_def voiceChecks_def voiceRegex_def
  isVoiceChar_def parseContent_def parseUrl_def getProp_def lit_def

lemma getProp_simps [simp]:
  "getProp [] k = None"
  "getProp ((k', v) # kvs) k = (if k' = lit k then Some v else getProp kvs k)"
  by (simp_all add: getProp_def)

lemma parseUrl_None [simp]: "parseUrl z p None = Inr None"
  by (simp add: parseUrl_def)

lemma parseContent_None [simp]: "parseContent None = Inr None"
  by (simp add: parseContent_def)

lemma safeParse_accepted:
  assumes "safeParse z (JObj kvs) = Inl issues"
    and "issuesOf (parseMode (getProp kvs ''mode'')) = []"
    and "voiceAccepted (getProp kvs ''voice'')"
    and "contentAccepted (getProp kvs ''content'')"
    and "urlAccepted z (getProp kvs ''url'')"
    and "urlAccepted z (getProp kvs ''videoUrl'')"
  shows False
proof -
  have "issues = []"
    using safeParse_obj_Inl [OF assms(1)] assms(2-)
    by (simp add: issuesOf_parseVoice issuesOf_parseContent issuesOf_parseUrl)
  with safeParse_issues [OF assms(1)] show False by simp
qed

lemma accepted_None [simp]:
  "voiceAccepted None" "contentAccepted None" "urlAccepted z None"
  by (simp_all add: voiceAccepted_def contentAccepted_def urlAccepted_def)

text \<open>
  The schema fails exactly on the payloads the specification calls invalid: a payload
  that is not an object, or an object with a field that is not accepted.
\<close>

lemma issuesOf_parseMode: "issuesOf (parseMode v) = [] \<longleftrightarrow> modeAccepted v"
  by (auto simp: parseMode_def modeAccepted_def split: option.splits json.splits)

lemma safeParse_nonobject:
  "(\<And>kvs. j \<noteq> JObj kvs) \<Longrightarrow> safeParse z j = Inl [ZIssue PRoot InvalidType None (Some j)]"
  by (cases j) (auto simp: safeParse_def)

lemma schema_fails_iff:
  "(\<exists>issues. safeParse z (JObj kvs) = Inl issues) \<longleftrightarrow>
     \<not> (modeAccepted (getProp kvs ''mode'') \<and> voiceAccepted (getProp kvs ''voice'') \<and>
        contentAccepted (getProp kvs ''content'') \<and> urlAccepted z (getProp kvs ''url'') \<and>
        urlAccepted z (getProp kvs ''videoUrl''))"
proof (cases "safeParse z (JObj kvs)")
  case (Inl issues)
  with safeParse_accepted [OF Inl] show ?thesis
    by (auto simp: issuesOf_parseMode)
next
  case (Inr d)
  then have "issuesOf (parseMode (getProp kvs ''mode'')) = []"
    "issuesOf (parseVoice (getProp kvs ''voice'')) = []"
    "issuesOf (parseContent (getProp kvs ''content'')) = []"
    "issuesOf (parseUrl z PUrl (getProp kvs ''url'')) = []"
    "issuesOf (parseUrl z PVideoUrl (getProp kvs ''videoUrl'')) = []"
    by (simp_all add: safeParse_obj_Inr)
  with Inr show ?thesis
    by (simp add: issuesOf_parseMode issuesOf_parseVoice issuesOf_parseContent issuesOf_parseUrl)
qed

text \<open>
  Claim C5. A payload that fails the schema has at least one issue, and the handler
  answers 400 with the message of the first issue alone, making no call. The issues
  are in the order of the schema (\<open>safeParse_obj_Inl\<close>): \<open>mode\<close>, \<open>voice\<close>,
  \<open>content\<close>, \<open>url\<close>, \<open>videoUrl\<close>, and within \<open>voice\<close> the lower bound, the upper
  bound, the pattern. Which payloads fail is \<open>schema_fails_iff\<close> and
  \<open>safeParse_nonobject\<close>.
\<close>

theorem first_issue_reported:
  assumes "safeParse z j = Inl issues"
  shows "issues \<noteq> [] \<and> POST z e (Inr j) = (errorResponse (message z (hd issues)) 400, [])"
  using assms by (rule first_issue)

text \<open>
  At \<^verbatim>\<open>{mode: "text", voice: "a1", content: "short"}\<close> two constraints are
  violated and the response carries the first one's message only.
\<close>

theorem first_issue_reported_witness:
  "safeParse sampleZod badVoiceShortText =
     Inl [ZIssue PVoice InvalidStringRegex
            (Some (lit ''Voice id must be alphanumeric or hyphenated'')) (Some (JStr (lit ''a1''))),
          ZIssue PContent (TooSmall 50)
            (Some (lit ''Provide at least 50 characters of text.'')) (Some (JStr (lit ''short'')))] \<and>
   POST sampleZod okEnv (Inr badVoiceShortText) =
     (errorResponse (lit ''Voice id must be alphanumeric or hyphenated'') 400, [])"
proof -
  have p: "safeParse sampleZod badVoiceShortText =
     Inl [ZIssue PVoice InvalidStringRegex
            (Some (lit ''Voice id must be alphanumeric or hyphenated'')) (Some (JStr (lit ''a1''))),
          ZIssue PContent (TooSmall 50)
            (Some (lit ''Provide at least 50 characters of text.'')) (Some (JStr (lit ''short'')))]"
    by (simp add: badVoiceShortText_def schema_eval)
  show ?thesis
    using first_issue_reported [OF p, of okEnv] p by (simp add: message_def)
qed

subsection \<open>Text mode: the 50-character minimum\<close>




subsection \<open>A missing required field\<close>

lemma dispatch_url_missing:
  "mode d = Url \<Longrightarrow> falsy (url d) \<Longrightarrow>
     dispatch e d = (Inr (errorResponse (lit ''Missing URL for webpage mode.'') 400), [])"
  by (simp add: dispatch_def returns_def)

lemma dispatch_video_missing:
  "mode d = Video \<Longrightarrow> falsy (videoUrl d) \<Longrightarrow>
     dispatch e d = (Inr (errorResponse (lit ''Missing video URL for YouTube mode.'') 400), [])"
  by (simp add: dispatch_def returns_def)

lemma missing_url:
  assumes m: "getProp kvs ''mode'' = Some (JStr (lit ''url''))"
    and u: "getProp kvs ''url'' = None"
  shows "status (fst (POST z e (Inr (JObj kvs)))) = 400 \<and>
         snd (POST z e (Inr (JObj kvs))) = [] \<and>
         (voiceAccepted (getProp kvs ''voice'') \<and> contentAccepted (getProp kvs ''content'') \<and>
          urlAccepted z (getProp kvs ''videoUrl'') \<longrightarrow>
            body (fst (POST z e (Inr (JObj kvs)))) = ErrorBody (lit ''Missing URL for webpage mode.''))"
proof (cases "safeParse z (JObj kvs)")
  case (Inl issues)
  show ?thesis
    using POST_invalid_status [OF Inl, of e] safeParse_accepted [OF Inl] m u
    by auto
next
  case (Inr d)
  then have "mode d = Url" and "url d = None"
    using m u by (auto simp: safeParse_obj_Inr)
  then have "dispatch e d = (Inr (errorResponse (lit ''Missing URL for webpage mode.'') 400), [])"
    by (simp add: dispatch_url_missing falsy_def)
  then have "POST z e (Inr (JObj kvs)) = (errorResponse (lit ''Missing URL for webpage mode.'') 400, [])"
    by (rule POST_valid [OF Inr])
  then show ?thesis by simp
qed

lemma missing_videoUrl:
  assumes m: "getProp kvs ''mode'' = Some (JStr (lit ''video''))"
    and u: "getProp kvs ''videoUrl'' = None"
  shows "status (fst (POST z e (Inr (JObj kvs)))) = 400 \<and>
         snd (POST z e (Inr (JObj kvs))) = [] \<and>
         (voiceAccepted (getProp kvs ''voice'') \<and> contentAccepted (getProp kvs ''content'') \<and>
          urlAccepted z (getProp kvs ''url'') \<longrightarrow>
            body (fst (POST z e (Inr (JObj kvs)))) =
              ErrorBody (lit ''Missing video URL for YouTube mode.''))"
proof (cases "safeParse z (JObj kvs)")
  case (Inl issues)
  show ?thesis
    using POST_invalid_status [OF Inl, of e] safeParse_accepted [OF Inl] m u
    by auto
next
  case (Inr d)
  then have "mode d = Video" and "videoUrl d = None"
    using m u by (auto simp: safeParse_obj_Inr)
  then have "dispatch e d =
      (Inr (errorResponse (lit ''Missing video URL for YouTube mode.'') 400), [])"
    by (simp add: dispatch_video_missing falsy_def)
  then have "POST z e (Inr (JObj kvs)) =
      (errorResponse (lit ''Missing video URL for YouTube mode.'') 400, [])"
    by (rule POST_valid [OF Inr])
  then show ?thesis by simp
qed

text \<open>
  Claim C4, as amended. A request in url mode without \<open>url\<close>, and a request in video
  mode without \<open>videoUrl\<close>, is answered with status 400 and no call is made: no
  extractor runs. When the other fields (\<open>voice\<close>, \<open>content\<close> and the other URL) are
  absent or valid, the message names the missing field. When one of them is invalid the
  message is that of the first issue of the schema, by \<open>first_issue\<close>.
\<close>

theorem missing_field_rejected:
  "(getProp kvs ''mode'' = Some (JStr (lit ''url'')) \<and> getProp kvs ''url'' = None \<longrightarrow>
      status (fst (POST z e (Inr (JObj kvs)))) = 400 \<and>
      snd (POST z e (Inr (JObj kvs))) = [] \<and>
      (voiceAccepted (getProp kvs ''voice'') \<and> contentAccepted (getProp kvs ''content'') \<and>
       urlAccepted z (getProp kvs ''videoUrl'') \<longrightarrow>
         body (fst (POST z e (Inr (JObj kvs)))) = ErrorBody (lit ''Missing URL for webpage mode.''))) \<and>
   (getProp kvs ''mode'' = Some (JStr (lit ''video'')) \<and> getProp kvs ''videoUrl'' = None \<longrightarrow>
      status (fst (POST z e (Inr (JObj kvs)))) = 400 \<and>
      snd (POST z e (Inr (JObj kvs))) = [] \<and>
      (voiceAccepted (getProp kvs ''voice'') \<and> contentAccepted (getProp kvs ''content'') \<and>
       urlAccepted z (getProp kvs ''url'') \<longrightarrow>
         body (fst (POST z e (Inr (JObj kvs)))) =
           ErrorBody (lit ''Missing video URL for YouTube mode.'')))"
  using missing_url [of kvs z e] missing_videoUrl [of kvs z e] by blast

text \<open>At \<^verbatim>\<open>{mode: "url"}\<close> and at \<^verbatim>\<open>{mode: "video"}\<close>.\<close>

theorem missing_field_rejected_witness:
  "POST sampleZod okEnv (Inr noUrlRequest) =
     (errorResponse (lit ''Missing URL for webpage mode.'') 400, []) \<and>
   POST sampleZod okEnv (Inr noVideoUrlRequest) =
     (errorResponse (lit ''Missing video URL for YouTube mode.'') 400, [])"
proof -
  have u: "getProp [(lit ''mode'', JStr (lit ''url''))] ''mode'' = Some (JStr (lit ''url'') :: nat json)"
    "getProp [(lit ''mode'', JStr (lit ''url'') :: nat json)] ''url'' = None"
    "getProp [(lit ''mode'', JStr (lit ''url'') :: nat json)] ''voice'' = None"
    "getProp [(lit ''mode'', JStr (lit ''url'') :: nat json)] ''content'' = None"
    "getProp [(lit ''mode'', JStr (lit ''url'') :: nat json)] ''videoUrl'' = None"
    by simp_all
  have v: "getProp [(lit ''mode'', JStr (lit ''video''))] ''mode'' = Some (JStr (lit ''video'') :: nat json)"
    "getProp [(lit ''mode'', JStr (lit ''video'') :: nat json)] ''url'' = None"
    "getProp [(lit ''mode'', JStr (lit ''video'') :: nat json)] ''voice'' = None"
    "getProp [(lit ''mode'', JStr (lit ''video'') :: nat json)] ''content'' = None"
    "getProp [(lit ''mode'', JStr (lit ''video'') :: nat json)] ''videoUrl'' = None"
    by simp_all
  have "status (fst (POST sampleZod okEnv (Inr noUrlRequest))) = 400 \<and>
        snd (POST sampleZod okEnv (Inr noUrlRequest)) = [] \<and>
        body (fst (POST sampleZod okEnv (Inr noUrlRequest))) =
          ErrorBody (lit ''Missing URL for webpage mode.'')"
    using missing_field_rejected [of "[(lit ''mode'', JStr (lit ''url''))]" sampleZod okEnv] u
    by (simp add: noUrlRequest_def)
  moreover have "status (fst (POST sampleZod okEnv (Inr noVideoUrlRequest))) = 400 \<and>
        snd (POST sampleZod okEnv (Inr noVideoUrlRequest)) = [] \<and>
        body (fst (POST sampleZod okEnv (Inr noVideoUrlRequest))) =
          ErrorBody (lit ''Missing video URL for YouTube mode.'')"
    using missing_field_rejected [of "[(lit ''mode'', JStr (lit ''video''))]" sampleZod okEnv] v
    by (simp add: noVideoUrlRequest_def)
  ultimately show ?thesis
    by (cases "POST sampleZod okEnv (Inr noUrlRequest)";
        cases "POST sampleZod okEnv (Inr noVideoUrlRequest)";
        cases "fst (POST sampleZod okEnv (Inr noUrlRequest))";
        cases "fst (POST sampleZod okEnv (Inr noVideoUrlRequest))")
       (simp add: errorResponse_def)
qed

text \<open>
  The claim as written fails at \<^verbatim>\<open>{mode: "url", voice: "nova-2"}\<close>: the \<open>url\<close>
  field is absent and the message is the one of the voice pattern, not one naming the
  missing field.
\<close>

theorem missing_field_counterexample:
  "getProp [(lit ''mode'', JStr (lit ''url'')), (lit ''voice'', JStr (lit ''nova-2''))] ''url''
     = (None :: nat json option) \<and>
   POST sampleZod okEnv (Inr badVoiceUrl) =
     (errorResponse (lit ''Voice id must be alphanumeric or hyphenated'') 400, [])"
proof -
  have p: "safeParse sampleZod badVoiceUrl =
     Inl [ZIssue PVoice InvalidStringRegex
            (Some (lit ''Voice id must be alphanumeric or hyphenated'')) (Some (JStr (lit ''nova-2'')))]"
    by (simp add: badVoiceUrl_def schema_eval)
  have "POST sampleZod okEnv (Inr badVoiceUrl) =
     (errorResponse (lit ''Voice id must be alphanumeric or hyphenated'') 400, [])"
    using first_issue [OF p, of okEnv] by (simp add: message_def)
  then show ?thesis
    by (simp add: lit_def)
qed

subsection \<open>Text mode without content\<close>

text \<open>
  Claim C10, as amended. A request in text mode without \<open>content\<close> is answered with
  status 400 and no call is made. When its \<open>voice\<close>, \<open>url\<close> and \<open>videoUrl\<close> fields
  are absent or valid, the payload passes the schema with no content, the handler reads
  the content as the empty string and the message is the handler's 50-character one,
  not a missing-field one.
\<close>

theorem absent_content_is_empty:
  assumes m: "getProp kvs ''mode'' = Some (JStr (lit ''text''))"
    and c: "getProp kvs ''content'' = None"
  shows "status (fst (POST z e (Inr (JObj kvs)))) = 400 \<and>
         snd (POST z e (Inr (JObj kvs))) = [] \<and>
         (voiceAccepted (getProp kvs ''voice'') \<and> urlAccepted z (getProp kvs ''url'') \<and>
          urlAccepted z (getProp kvs ''videoUrl'') \<longrightarrow>
            (\<exists>d. safeParse z (JObj kvs) = Inr d \<and> content d = None) \<and>
            body (fst (POST z e (Inr (JObj kvs)))) =
              ErrorBody (lit ''Please provide at least 50 characters of text.''))"
proof (cases "safeParse z (JObj kvs)")
  case (Inl issues)
  show ?thesis
    using POST_invalid_status [OF Inl, of e] safeParse_accepted [OF Inl] m c
    by auto
next
  case (Inr d)
  then have d: "mode d = Text" "content d = None"
    using m c by (auto simp: safeParse_obj_Inr)
  then have "dispatch e d =
      (Inr (errorResponse (lit ''Please provide at least 50 characters of text.'') 400), [])"
    by (simp add: dispatch_text_short trim_def)
  then have "POST z e (Inr (JObj kvs)) =
      (errorResponse (lit ''Please provide at least 50 characters of text.'') 400, [])"
    by (rule POST_valid [OF Inr])
  with Inr d show ?thesis by simp
qed

text \<open>At \<^verbatim>\<open>{mode: "text"}\<close>.\<close>

theorem absent_content_is_empty_witness:
  "safeParse sampleZod noContentRequest =
     Inr \<lparr>mode = Text, voice = lit ''alloy'', content = None, url = None, videoUrl = None\<rparr> \<and>
   POST sampleZod okEnv (Inr noContentRequest) =
     (errorResponse (lit ''Please provide at least 50 characters of text.'') 400, [])"
proof -
  have g: "getProp [(lit ''mode'', JStr (lit ''text''))] ''mode'' = Some (JStr (lit ''text'') :: nat json)"
    "getProp [(lit ''mode'', JStr (lit ''text'') :: nat json)] ''url'' = None"
    "getProp [(lit ''mode'', JStr (lit ''text'') :: nat json)] ''voice'' = None"
    "getProp [(lit ''mode'', JStr (lit ''text'') :: nat json)] ''content'' = None"
    "getProp [(lit ''mode'', JStr (lit ''text'') :: nat json)] ''videoUrl'' = None"
    by simp_all
  have p: "safeParse sampleZod noContentRequest =
     Inr \<lparr>mode = Text, voice = lit ''alloy'', content = None, url = None, videoUrl = None\<rparr>"
    by (simp add: safeParse_obj_Inr noContentRequest_def g)
  have "status (fst (POST sampleZod okEnv (Inr noContentRequest))) = 400 \<and>
        snd (POST sampleZod okEnv (Inr noContentRequest)) = [] \<and>
        body (fst (POST sampleZod okEnv (Inr noContentRequest))) =
          ErrorBody (lit ''Please provide at least 50 characters of text.'')"
    using absent_content_is_empty [of "[(lit ''mode'', JStr (lit ''text''))]" sampleZod okEnv] g
    by (simp add: noContentRequest_def)
  with p show ?thesis
    by (cases "POST sampleZod okEnv (Inr noContentRequest)";
        cases "fst (POST sampleZod okEnv (Inr noContentRequest))")
       (simp add: errorResponse_def)
qed

text \<open>
  The claim as written fails at \<^verbatim>\<open>{mode: "text", voice: "voice_1"}\<close>: the content
  is absent, and the payload does not pass the schema.
\<close>

theorem absent_content_counterexample:
  "getProp [(lit ''mode'', JStr (lit ''text'')), (lit ''voice'', JStr (lit ''voice_1''))] ''content''
     = (None :: nat json option) \<and>
   safeParse sampleZod badVoiceNoContent =
     Inl [ZIssue PVoice InvalidStringRegex
            (Some (lit ''Voice id must be alphanumeric or hyphenated'')) (Some (JStr (lit ''voice_1'')))] \<and>
   POST sampleZod okEnv (Inr badVoiceNoContent) =
     (errorResponse (lit ''Voice id must be alphanumeric or hyphenated'') 400, [])"
proof -
  have p: "safeParse sampleZod badVoiceNoContent =
     Inl [ZIssue PVoice InvalidStringRegex
            (Some (lit ''Voice id must be alphanumeric or hyphenated'')) (Some (JStr (lit ''voice_1'')))]"
    by (simp add: badVoiceNoContent_def schema_eval)
  have "POST sampleZod okEnv (Inr badVoiceNoContent) =
     (errorResponse (lit ''Voice id must be alphanumeric or hyphenated'') 400, [])"
    using first_issue [OF p, of okEnv] by (simp add: message_def)
  with p show ?thesis
    by (simp add: lit_def)
qed

subsection \<open>The catch block\<close>

lemma sampleText_facts [simp]:
  "trim sampleText = sampleText" "length sampleText = 57" "sampleText \<noteq> []"
  by (simp_all add: sampleText_def trim_def isWhiteSpace_def lit_def)

lemma sampleScript_facts [simp]:
  "trim sampleScript = sampleScript" "sampleScript \<noteq> []"
  by (simp_all add: sampleScript_def trim_def isWhiteSpace_def lit_def)

lemma safeParse_textRequest:
  "safeParse sampleZod textRequest =
     Inr \<lparr>mode = Text, voice = lit ''alloy'', content = Some sampleText, url = None, videoUrl = None\<rparr>"
  by (simp add: safeParse_obj_Inr textRequest_def parseContent_def)

lemma tryBlock_throws:
  "fst (tryBlock z e req) = Inl t \<Longrightarrow>
     POST z e req = (errorResponse (caughtMessage t) (caughtStatus (caughtMessage t)),
                     snd (tryBlock z e req) @ [ConsoleError t])"
  by (simp add: POST_cases)

lemma tryBlock_noKey:
  "tryBlock sampleZod noKeyEnv (Inr textRequest) =
     (Inl (Error (lit ''Missing OPENAI_API_KEY environment variable'')
                (lit ''Error: Missing OPENAI_API_KEY environment variable at getOpenAIClient'')),
      [GetOpenAIClient])"
  by (simp add: tryBlock_valid [OF safeParse_textRequest] dispatch_def withSource_def falsy_def
      generate_def noKeyEnv_def okEnv_def)

lemma tryBlock_crash:
  "tryBlock sampleZod crashEnv (Inr textRequest) = (Inl crash, [GetOpenAIClient, BuildScriptPrompt])"
  by (simp add: tryBlock_valid [OF safeParse_textRequest] dispatch_def withSource_def falsy_def
      generate_def crashEnv_def okEnv_def)

lemma tryBlock_badJson: "tryBlock z e (Inl t) = (Inl t, [])"
  by (simp add: tryBlock_def)

text \<open>
  Claim C7, as amended. Whatever is thrown inside the \<^verbatim>\<open>try\<close> block, at any stage,
  the status of the response is decided by the message of the failure alone: 500 when
  the thrown value is an \<^verbatim>\<open>Error\<close> whose message contains \<^verbatim>\<open>OPENAI_API_KEY\<close> or
  \<^verbatim>\<open>Failed to fetch\<close>, and 400 for every other failure, a thrown value that is not
  an \<^verbatim>\<open>Error\<close> included.
\<close>

theorem caught_failure_status:
  assumes "fst (tryBlock z e req) = Inl t"
  shows "status (fst (POST z e req)) =
           (case t of
              Error m st \<Rightarrow>
                if includes_str m (lit ''OPENAI_API_KEY'') \<or> includes_str m (lit ''Failed to fetch'')
                then 500 else 400
            | NotAnError \<Rightarrow> 400)"
proof (cases t)
  case (Error m st)
  with tryBlock_throws [OF assms] show ?thesis
    by (simp add: caughtStatus_def caughtMessage_def)
next
  case NotAnError
  have "caughtStatus (lit ''Unexpected server error.'') = 400"
    by (simp add: caughtStatus_def lit_def)
  with NotAnError tryBlock_throws [OF assms] show ?thesis
    by (simp add: caughtMessage_def)
qed

text \<open>
  A missing key reported by \<^verbatim>\<open>getOpenAIClient\<close> with the marker in its message gives
  500; a body that is not JSON, and a thrown value that is not an \<^verbatim>\<open>Error\<close>, give
  400.
\<close>

theorem caught_failure_status_witness:
  "includes_str (lit ''Missing OPENAI_API_KEY environment variable'') (lit ''OPENAI_API_KEY'') \<and>
   status (fst (POST sampleZod noKeyEnv (Inr textRequest))) = 500 \<and>
   \<not> includes_str (lit ''Unexpected end of JSON input'') (lit ''OPENAI_API_KEY'') \<and>
   \<not> includes_str (lit ''Unexpected end of JSON input'') (lit ''Failed to fetch'') \<and>
   status (fst (POST sampleZod okEnv (Inl badJson :: thrown + nat json))) = 400 \<and>
   status (fst (POST sampleZod okEnv (Inl NotAnError :: thrown + nat json))) = 400"
proof -
  have a: "fst (tryBlock sampleZod noKeyEnv (Inr textRequest)) =
      Inl (Error (lit ''Missing OPENAI_API_KEY environment variable'')
                (lit ''Error: Missing OPENAI_API_KEY environment variable at getOpenAIClient''))"
    by (simp add: tryBlock_noKey)
  have b: "fst (tryBlock sampleZod okEnv (Inl badJson :: thrown + nat json)) = Inl badJson"
    by (simp add: tryBlock_badJson)
  have n: "fst (tryBlock sampleZod okEnv (Inl NotAnError :: thrown + nat json)) = Inl NotAnError"
    by (simp add: tryBlock_badJson)
  have c: "includes_str (lit ''Missing OPENAI_API_KEY environment variable'') (lit ''OPENAI_API_KEY'')"
    by (simp add: lit_def)
  have d: "\<not> includes_str (lit ''Unexpected end of JSON input'') (lit ''OPENAI_API_KEY'')"
    "\<not> includes_str (lit ''Unexpected end of JSON input'') (lit ''Failed to fetch'')"
    by (simp_all add: lit_def)
  show ?thesis
    using caught_failure_status [OF a] caught_failure_status [OF b] caught_failure_status [OF n]
      c d
    by (simp add: badJson_def)
qed

text \<open>
  The claim as written fails for an unreachable-network fault: when the generation
  service cannot be reached, the OpenAI client throws its connection error at line 89,
  the message \<^verbatim>\<open>Connection error.\<close> carries neither marker, and the status is 400,
  not 500.
\<close>

theorem caught_failure_status_counterexample:
  "responsesCreate unreachableEnv sampleText = Inl connectionError \<and>
   fst (tryBlock sampleZod unreachableEnv (Inr textRequest)) = Inl connectionError \<and>
   POST sampleZod unreachableEnv (Inr textRequest) =
     (errorResponse (lit ''Connection error.'') 400,
      [GetOpenAIClient, BuildScriptPrompt, ResponsesCreate sampleText, ConsoleError connectionError])"
proof -
  have r: "responsesCreate unreachableEnv sampleText = Inl connectionError"
    by (simp add: unreachableEnv_def okEnv_def)
  have t: "tryBlock sampleZod unreachableEnv (Inr textRequest) =
      (Inl connectionError, [GetOpenAIClient, BuildScriptPrompt, ResponsesCreate sampleText])"
    by (simp add: tryBlock_valid [OF safeParse_textRequest] dispatch_def withSource_def falsy_def
        generate_def unreachableEnv_def okEnv_def)
  have s: "caughtStatus (lit ''Connection error.'') = 400"
    by (simp add: caughtStatus_def lit_def)
  have "POST sampleZod unreachableEnv (Inr textRequest) =
     (errorResponse (lit ''Connection error.'') 400,
      [GetOpenAIClient, BuildScriptPrompt, ResponsesCreate sampleText, ConsoleError connectionError])"
    using tryBlock_throws [of sampleZod unreachableEnv "Inr textRequest" connectionError]
    by (simp add: t caughtMessage_def connectionError_def s)
  with r t show ?thesis
    by simp
qed

text \<open>
  Claim C9, as amended. Whatever is thrown inside the \<^verbatim>\<open>try\<close> block, the fault is
  logged and the body of the response is \<open>{ error }\<close> with the message of the thrown
  \<^verbatim>\<open>Error\<close> itself, as it is, and without its stack; the generic
  \<^verbatim>\<open>Unexpected server error.\<close> is sent only when the thrown value is not an
  \<^verbatim>\<open>Error\<close>.
\<close>

theorem caught_failure_body:
  assumes "fst (tryBlock z e req) = Inl t"
  shows "body (fst (POST z e req)) =
           ErrorBody (case t of Error m st \<Rightarrow> m | NotAnError \<Rightarrow> lit ''Unexpected server error.'') \<and>
         last (snd (POST z e req)) = ConsoleError t"
  using tryBlock_throws [OF assms]
  by (simp add: caughtMessage_def)

text \<open>An exception inside \<^verbatim>\<open>buildScriptPrompt\<close>, and a thrown value that is no \<^verbatim>\<open>Error\<close>.\<close>

theorem caught_failure_body_witness:
  "POST sampleZod crashEnv (Inr textRequest) =
     (errorResponse (lit ''Cannot read properties of undefined'') 400,
      [GetOpenAIClient, BuildScriptPrompt, ConsoleError crash]) \<and>
   body (fst (POST sampleZod okEnv (Inl NotAnError :: thrown + nat json))) =
     ErrorBody (lit ''Unexpected server error.'')"
proof -
  have a: "fst (tryBlock sampleZod crashEnv (Inr textRequest)) = Inl crash"
    by (simp add: tryBlock_crash)
  have b: "fst (tryBlock sampleZod okEnv (Inl NotAnError :: thrown + nat json)) = Inl NotAnError"
    by (simp add: tryBlock_badJson)
  have s: "caughtStatus (lit ''Cannot read properties of undefined'') = 400"
    by (simp add: caughtStatus_def lit_def)
  have "POST sampleZod crashEnv (Inr textRequest) =
     (errorResponse (lit ''Cannot read properties of undefined'') 400,
      [GetOpenAIClient, BuildScriptPrompt, ConsoleError crash])"
    using tryBlock_throws [OF a] by (simp add: tryBlock_crash caughtMessage_def crash_def s)
  then show ?thesis
    using caught_failure_body [OF a] caught_failure_body [OF b] by simp
qed

text \<open>
  The claim as written fails when \<^verbatim>\<open>buildScriptPrompt\<close> throws a
  \<^verbatim>\<open>TypeError\<close>: the caller receives the raw message of the exception, with status
  400, not a generic message.
\<close>

theorem caught_failure_body_counterexample:
  "fst (tryBlock sampleZod crashEnv (Inr textRequest)) = Inl crash \<and>
   body (fst (POST sampleZod crashEnv (Inr textRequest))) = ErrorBody (errorMessage crash) \<and>
   errorMessage crash = lit ''Cannot read properties of undefined'' \<and>
   status (fst (POST sampleZod crashEnv (Inr textRequest))) = 400"
proof -
  have a: "fst (tryBlock sampleZod crashEnv (Inr textRequest)) = Inl crash"
    by (simp add: tryBlock_crash)
  have s: "caughtStatus (lit ''Cannot read properties of undefined'') = 400"
    by (simp add: caughtStatus_def lit_def)
  show ?thesis
    using tryBlock_throws [OF a] a by (simp add: caughtMessage_def crash_def s)
qed

subsection \<open>Extraction failures\<close>

lemma sampleUrl_facts [simp]: "sampleUrl \<noteq> []" "isUrl sampleZod sampleUrl"
  by (simp_all add: sampleUrl_def sampleZod_def lit_def)

lemma safeParse_urlRequest:
  "safeParse sampleZod urlRequest =
     Inr \<lparr>mode = Url, voice = lit ''alloy'', content = None, url = Some sampleUrl, videoUrl = None\<rparr>"
  by (simp add: safeParse_obj_Inr urlRequest_def parseUrl_def)

lemma safeParse_videoRequest:
  "safeParse sampleZod videoRequest =
     Inr \<lparr>mode = Video, voice = lit ''alloy'', content = None, url = None, videoUrl = Some sampleUrl\<rparr>"
  by (simp add: safeParse_obj_Inr videoRequest_def parseUrl_def)

lemma dispatch_url:
  "mode d = Url \<Longrightarrow> url d = Some u \<Longrightarrow> u \<noteq> [] \<Longrightarrow>
     dispatch e d = await (ExtractFromUrl u) (extractFromUrl e u)
                      (\<lambda>sourceText. withSource e Url (voice d) sourceText (Some u))"
  by (simp add: dispatch_def falsy_def)

lemma dispatch_video:
  "mode d = Video \<Longrightarrow> videoUrl d = Some u \<Longrightarrow> u \<noteq> [] \<Longrightarrow>
     dispatch e d = await (ExtractFromYouTube u) (extractFromYouTube e u)
                      (\<lambda>sourceText. withSource e Video (voice d) sourceText (Some u))"
  by (simp add: dispatch_def falsy_def)

lemma withSource_falsy:
  "falsy src \<Longrightarrow> withSource e m v src origin =
     (Inr (errorResponse (lit ''Unable to derive source material for the podcast.'') 422), [])"
  by (simp add: withSource_def returns_def)

lemma POST_throws:
  "safeParse z j = Inr d \<Longrightarrow> dispatch e d = (Inl t, tr) \<Longrightarrow>
     POST z e (Inr j) =
       (errorResponse (caughtMessage t) (caughtStatus (caughtMessage t)), tr @ [ConsoleError t])"
  by (simp add: POST_cases tryBlock_valid)

lemma extraction_outcome:
  assumes p: "safeParse z j = Inr d"
    and d: "dispatch e d = await c x (\<lambda>sourceText. withSource e m v sourceText origin)"
  shows "(x = Inr None \<or> x = Inr (Some []) \<longrightarrow>
           POST z e (Inr j) =
             (errorResponse (lit ''Unable to derive source material for the podcast.'') 422, [c])) \<and>
         (\<forall>t. x = Inl t \<longrightarrow>
           POST z e (Inr j) =
             (errorResponse (caughtMessage t) (caughtStatus (caughtMessage t)), [c, ConsoleError t]))"
proof (intro conjI impI allI)
  assume "x = Inr None \<or> x = Inr (Some [])"
  then obtain src where "x = Inr src" "falsy src"
    by (auto simp: falsy_def)
  then have "dispatch e d =
      (Inr (errorResponse (lit ''Unable to derive source material for the podcast.'') 422), [c])"
    by (simp add: d withSource_falsy)
  then show "POST z e (Inr j) =
      (errorResponse (lit ''Unable to derive source material for the podcast.'') 422, [c])"
    by (rule POST_valid [OF p])
next
  fix t
  assume "x = Inl t"
  then have "dispatch e d = (Inl t, [c])"
    by (simp add: d)
  then show "POST z e (Inr j) =
      (errorResponse (caughtMessage t) (caughtStatus (caughtMessage t)), [c, ConsoleError t])"
    using POST_throws [OF p] by simp
qed

text \<open>
  Claim C2, as amended. For a request that passes the schema, in url mode with its
  \<open>url\<close> or in video mode with its \<open>videoUrl\<close>: when the extractor returns no text
  (\<^verbatim>\<open>null\<close> or the empty string) the handler answers 422 with
  \<^verbatim>\<open>Unable to derive source material for the podcast.\<close>; when the extractor throws,
  the answer is the one of the \<^verbatim>\<open>catch\<close> block, the thrown message with status 500
  or 400. In both cases the extractor is the only collaborator called.
\<close>

theorem extraction_failure:
  assumes p: "safeParse z j = Inr d"
    and m: "mode d = Url \<and> url d = Some u \<and> c = ExtractFromUrl u \<and> x = extractFromUrl e u \<or>
            mode d = Video \<and> videoUrl d = Some u \<and> c = ExtractFromYouTube u \<and>
              x = extractFromYouTube e u"
    and u: "u \<noteq> []"
  shows "(x = Inr None \<or> x = Inr (Some []) \<longrightarrow>
           POST z e (Inr j) =
             (errorResponse (lit ''Unable to derive source material for the podcast.'') 422, [c])) \<and>
         (\<forall>t. x = Inl t \<longrightarrow>
           POST z e (Inr j) =
             (errorResponse (caughtMessage t) (caughtStatus (caughtMessage t)), [c, ConsoleError t]))"
  using m
proof
  assume a: "mode d = Url \<and> url d = Some u \<and> c = ExtractFromUrl u \<and> x = extractFromUrl e u"
  then have "dispatch e d =
      await c x (\<lambda>sourceText. withSource e Url (voice d) sourceText (Some u))"
    using u by (simp add: dispatch_url)
  then show ?thesis
    by (rule extraction_outcome [OF p])
next
  assume a: "mode d = Video \<and> videoUrl d = Some u \<and> c = ExtractFromYouTube u \<and>
             x = extractFromYouTube e u"
  then have "dispatch e d =
      await c x (\<lambda>sourceText. withSource e Video (voice d) sourceText (Some u))"
    using u by (simp add: dispatch_video)
  then show ?thesis
    by (rule extraction_outcome [OF p])
qed

text \<open>
  An extractor that returns \<^verbatim>\<open>null\<close>, one that returns the empty string, and a
  transcript extractor that throws.
\<close>

theorem extraction_failure_witness:
  "POST sampleZod emptyExtractEnv (Inr urlRequest) =
     (errorResponse (lit ''Unable to derive source material for the podcast.'') 422,
      [ExtractFromUrl sampleUrl]) \<and>
   POST sampleZod emptyExtractEnv (Inr videoRequest) =
     (errorResponse (lit ''Unable to derive source material for the podcast.'') 422,
      [ExtractFromYouTube sampleUrl]) \<and>
   POST sampleZod extractThrowsEnv (Inr videoRequest) =
     (errorResponse (lit ''Transcript is disabled on this video'') 400,
      [ExtractFromYouTube sampleUrl, ConsoleError noTranscript])"
proof -
  have s: "caughtStatus (lit ''Transcript is disabled on this video'') = 400"
    by (simp add: caughtStatus_def lit_def)
  have a: "extractFromUrl emptyExtractEnv sampleUrl = Inr None"
    and b: "extractFromYouTube emptyExtractEnv sampleUrl = Inr (Some [])"
    and c: "extractFromYouTube extractThrowsEnv sampleUrl = Inl noTranscript"
    by (simp_all add: emptyExtractEnv_def extractThrowsEnv_def okEnv_def)
  show ?thesis
    using
      extraction_failure [OF safeParse_urlRequest, of sampleUrl "ExtractFromUrl sampleUrl"
        "extractFromUrl emptyExtractEnv sampleUrl" emptyExtractEnv]
      extraction_failure [OF safeParse_videoRequest, of sampleUrl "ExtractFromYouTube sampleUrl"
        "extractFromYouTube emptyExtractEnv sampleUrl" emptyExtractEnv]
      extraction_failure [OF safeParse_videoRequest, of sampleUrl "ExtractFromYouTube sampleUrl"
        "extractFromYouTube extractThrowsEnv sampleUrl" extractThrowsEnv]
    by (simp add: a b c s caughtMessage_def noTranscript_def)
qed

text \<open>
  The claim as written fails when the fetch of the page fails with an exception: the
  request is well formed, and the status is 500, not 422.
\<close>

theorem extraction_failure_counterexample:
  "safeParse sampleZod urlRequest =
     Inr \<lparr>mode = Url, voice = lit ''alloy'', content = None, url = Some sampleUrl, videoUrl = None\<rparr> \<and>
   extractFromUrl extractThrowsEnv sampleUrl = Inl fetchFailed \<and>
   POST sampleZod extractThrowsEnv (Inr urlRequest) =
     (errorResponse (lit ''Failed to fetch the page'') 500,
      [ExtractFromUrl sampleUrl, ConsoleError fetchFailed])"
proof -
  have s: "caughtStatus (lit ''Failed to fetch the page'') = 500"
    by (simp add: caughtStatus_def lit_def)
  have c: "extractFromUrl extractThrowsEnv sampleUrl = Inl fetchFailed"
    by (simp add: extractThrowsEnv_def okEnv_def)
  have "dispatch extractThrowsEnv
      \<lparr>mode = Url, voice = lit ''alloy'', content = None, url = Some sampleUrl, videoUrl = None\<rparr> =
      (Inl fetchFailed, [ExtractFromUrl sampleUrl])"
    by (simp add: dispatch_url c)
  then have "POST sampleZod extractThrowsEnv (Inr urlRequest) =
     (errorResponse (caughtMessage fetchFailed) (caughtStatus (caughtMessage fetchFailed)),
      [ExtractFromUrl sampleUrl] @ [ConsoleError fetchFailed])"
    by (rule POST_throws [OF safeParse_urlRequest])
  then show ?thesis
    by (simp add: safeParse_urlRequest c s caughtMessage_def fetchFailed_def)
qed

subsection \<open>Generation and synthesis failures\<close>

lemma synthesize_cases:
  "synthesize e v s =
     (case speechCreate e v s of
        Inl t \<Rightarrow> (Inl t, [SpeechCreate v s])
      | Inr (Inl t) \<Rightarrow> (Inl t, [SpeechCreate v s, ArrayBuffer])
      | Inr (Inr bytes) \<Rightarrow> (Inr (okResponse s (toBase64 e bytes)), [SpeechCreate v s, ArrayBuffer]))"
  by (simp add: synthesize_def returns_def split: sum.splits)

lemma generate_cases:
  "generate e m v src origin =
     (case getOpenAIClient e of
        Inl t \<Rightarrow> (Inl t, [GetOpenAIClient])
      | Inr _ \<Rightarrow>
         (case buildScriptPrompt e src m origin of
            Inl t \<Rightarrow> (Inl t, [GetOpenAIClient, BuildScriptPrompt])
          | Inr p \<Rightarrow>
             (case responsesCreate e p of
                Inl t \<Rightarrow> (Inl t, [GetOpenAIClient, BuildScriptPrompt, ResponsesCreate p])
              | Inr ot \<Rightarrow>
                  if falsy (map_option trim ot)
                  then (Inr (errorResponse failedScript 502),
                        [GetOpenAIClient, BuildScriptPrompt, ResponsesCreate p])
                  else (fst (synthesize e v (trim (the ot))),
                        [GetOpenAIClient, BuildScriptPrompt, ResponsesCreate p] @
                        snd (synthesize e v (trim (the ot)))))))"
  by (auto simp: generate_def returns_def falsy_def failedScript_def
      split: sum.splits option.splits)

lemma generate_responses:
  assumes "ResponsesCreate p \<in> set (snd (generate e m v src origin))"
  shows "(responsesCreate e p = Inr None \<or> (\<exists>s. responsesCreate e p = Inr (Some s) \<and> trim s = []) \<longrightarrow>
            fst (generate e m v src origin) = Inr (errorResponse failedScript 502)) \<and>
         (\<forall>t. responsesCreate e p = Inl t \<longrightarrow> fst (generate e m v src origin) = Inl t)"
  using assms
  by (auto simp: generate_cases synthesize_cases falsy_def split: sum.splits if_splits option.splits)

lemma generate_speech:
  assumes "SpeechCreate v' s \<in> set (snd (generate e m v src origin))"
  shows "v' = v \<and>
         (\<forall>t. speechCreate e v' s = Inl t \<or> speechCreate e v' s = Inr (Inl t) \<longrightarrow>
            fst (generate e m v src origin) = Inl t)"
  using assms
  by (auto simp: generate_cases synthesize_cases falsy_def split: sum.splits if_splits option.splits)

lemma withSource_generation:
  assumes "c \<in> set (snd (withSource e m v src origin))"
  shows "withSource e m v src origin = generate e m v (the src) origin"
  using assms by (auto simp: withSource_def returns_def split: if_splits)

lemma dispatch_generation:
  assumes "c \<in> set (snd (dispatch e d))" and "generationCall c"
  shows "\<exists>src origin. fst (dispatch e d) = fst (generate e (mode d) (voice d) src origin) \<and>
                      c \<in> set (snd (generate e (mode d) (voice d) src origin))"
proof (cases "mode d")
  case Text
  with assms(1) have "c \<in> set (snd (withSource e Text (voice d)
      (Some (trim (case content d of None \<Rightarrow> [] | Some c \<Rightarrow> c))) None))"
    by (auto simp: dispatch_def Let_def returns_def split: if_splits)
  moreover from this Text assms(1) have "dispatch e d = withSource e Text (voice d)
      (Some (trim (case content d of None \<Rightarrow> [] | Some c \<Rightarrow> c))) None"
    by (auto simp: dispatch_def Let_def returns_def split: if_splits)
  ultimately show ?thesis
    using Text withSource_generation by metis
next
  case Url
  from assms Url have nf: "\<not> falsy (url d)"
    by (auto simp: dispatch_def returns_def split: if_splits)
  then have eq: "dispatch e d = await (ExtractFromUrl (the (url d))) (extractFromUrl e (the (url d)))
      (\<lambda>sourceText. withSource e Url (voice d) sourceText (url d))"
    using Url by (simp add: dispatch_def)
  show ?thesis
  proof (cases "extractFromUrl e (the (url d))")
    case (Inl t)
    with eq assms show ?thesis
      by (simp add: generationCall_def)
  next
    case (Inr sourceText)
    with eq assms have "c \<in> set (snd (withSource e Url (voice d) sourceText (url d)))"
      and "fst (dispatch e d) = fst (withSource e Url (voice d) sourceText (url d))"
      by (auto simp: generationCall_def)
    then show ?thesis
      using Url withSource_generation by metis
  qed
next
  case Video
  from assms Video have nf: "\<not> falsy (videoUrl d)"
    by (auto simp: dispatch_def returns_def split: if_splits)
  then have eq: "dispatch e d =
      await (ExtractFromYouTube (the (videoUrl d))) (extractFromYouTube e (the (videoUrl d)))
        (\<lambda>sourceText. withSource e Video (voice d) sourceText (videoUrl d))"
    using Video by (simp add: dispatch_def)
  show ?thesis
  proof (cases "extractFromYouTube e (the (videoUrl d))")
    case (Inl t)
    with eq assms show ?thesis
      by (simp add: generationCall_def)
  next
    case (Inr sourceText)
    with eq assms have "c \<in> set (snd (withSource e Video (voice d) sourceText (videoUrl d)))"
      and "fst (dispatch e d) = fst (withSource e Video (voice d) sourceText (videoUrl d))"
      by (auto simp: generationCall_def)
    then show ?thesis
      using Video withSource_generation by metis
  qed
qed

lemma tryBlock_generation:
  assumes "c \<in> set (snd (tryBlock z e req))" and "generationCall c"
  shows "\<exists>j d src origin. req = Inr j \<and> safeParse z j = Inr d \<and>
           fst (tryBlock z e req) = fst (generate e (mode d) (voice d) src origin) \<and>
           c \<in> set (snd (generate e (mode d) (voice d) src origin))"
proof -
  from assms(1) obtain j d where j: "req = Inr j" "safeParse z j = Inr d"
    by (auto simp: tryBlock_def returns_def split: sum.splits)
  then have "tryBlock z e req = dispatch e d"
    by (simp add: tryBlock_valid)
  with assms dispatch_generation [of c e d] j show ?thesis
    by auto
qed

lemma POST_generation:
  assumes "c \<in> set (snd (POST z e req))" and "generationCall c"
  shows "\<exists>j d src origin. req = Inr j \<and> safeParse z j = Inr d \<and>
           c \<in> set (snd (generate e (mode d) (voice d) src origin)) \<and>
           fst (POST z e req) =
             (case fst (generate e (mode d) (voice d) src origin) of
                Inr r \<Rightarrow> r
              | Inl t \<Rightarrow> errorResponse (caughtMessage t) (caughtStatus (caughtMessage t)))"
proof -
  have "c \<in> set (snd (tryBlock z e req))"
    using assms by (auto simp: POST_cases generationCall_def split: sum.splits)
  from tryBlock_generation [OF this assms(2)] obtain j d src origin where
    g: "req = Inr j" "safeParse z j = Inr d"
       "fst (tryBlock z e req) = fst (generate e (mode d) (voice d) src origin)"
       "c \<in> set (snd (generate e (mode d) (voice d) src origin))"
    by blast
  have "fst (POST z e req) =
      (case fst (generate e (mode d) (voice d) src origin) of
         Inr r \<Rightarrow> r
       | Inl t \<Rightarrow> errorResponse (caughtMessage t) (caughtStatus (caughtMessage t)))"
    by (simp add: POST_cases g(3) split: sum.splits)
  with g show ?thesis
    by blast
qed

lemma generation_outcome:
  assumes "c \<in> set (snd (POST z e req))" and "generationCall c"
    and "\<And>m v src origin. c \<in> set (snd (generate e m v src origin)) \<Longrightarrow>
           fst (generate e m v src origin) = Inl t"
  shows "fst (POST z e req) = errorResponse (caughtMessage t) (caughtStatus (caughtMessage t))"
  using POST_generation [OF assms(1,2)] assms(3) by fastforce

text \<open>
  Claim C6, as amended. When the generation capability was called with a prompt and
  returned no text (\<^verbatim>\<open>undefined\<close>, or a string that is empty after trimming), the
  handler answers 502 with \<^verbatim>\<open>Failed to generate a script. ...\<close>. When the generation
  call throws, and when the synthesis call or the reading of its audio throws, the
  answer is the one of the \<^verbatim>\<open>catch\<close> block: the thrown message, with status 500 or
  400 by its content.
\<close>

theorem generation_failure:
  "(ResponsesCreate p \<in> set (snd (POST z e req)) \<longrightarrow>
      (responsesCreate e p = Inr None \<or> (\<exists>s. responsesCreate e p = Inr (Some s) \<and> trim s = []) \<longrightarrow>
         fst (POST z e req) =
           errorResponse
             (lit ''Failed to generate a script. Try again with different source material.'') 502) \<and>
      (\<forall>t. responsesCreate e p = Inl t \<longrightarrow>
         fst (POST z e req) = errorResponse (caughtMessage t) (caughtStatus (caughtMessage t)))) \<and>
   (SpeechCreate v s \<in> set (snd (POST z e req)) \<longrightarrow>
      (\<forall>t. speechCreate e v s = Inl t \<or> speechCreate e v s = Inr (Inl t) \<longrightarrow>
         fst (POST z e req) = errorResponse (caughtMessage t) (caughtStatus (caughtMessage t))))"
proof (intro conjI impI allI)
  assume c: "ResponsesCreate p \<in> set (snd (POST z e req))"
    and r: "responsesCreate e p = Inr None \<or> (\<exists>s. responsesCreate e p = Inr (Some s) \<and> trim s = [])"
  have gc: "generationCall (ResponsesCreate p)"
    by (simp add: generationCall_def)
  from POST_generation [OF c gc] obtain d :: parsedData and src origin where
    g: "ResponsesCreate p \<in> set (snd (generate e (mode d) (voice d) src origin))"
    and f: "fst (POST z e req) =
      (case fst (generate e (mode d) (voice d) src origin) of
         Inr r \<Rightarrow> r
       | Inl t \<Rightarrow> errorResponse (caughtMessage t) (caughtStatus (caughtMessage t)))"
    by blast
  from generate_responses [OF g] r
  have "fst (generate e (mode d) (voice d) src origin) = Inr (errorResponse failedScript 502)"
    by blast
  with f show "fst (POST z e req) =
      errorResponse
        (lit ''Failed to generate a script. Try again with different source material.'') 502"
    by (simp add: failedScript_def)
next
  fix t
  assume c: "ResponsesCreate p \<in> set (snd (POST z e req))"
    and r: "responsesCreate e p = Inl t"
  show "fst (POST z e req) = errorResponse (caughtMessage t) (caughtStatus (caughtMessage t))"
    using c
  proof (rule generation_outcome)
    show "generationCall (ResponsesCreate p)"
      by (simp add: generationCall_def)
  next
    fix m v src origin
    assume "ResponsesCreate p \<in> set (snd (generate e m v src origin))"
    from generate_responses [OF this] r
    show "fst (generate e m v src origin) = Inl t"
      by blast
  qed
next
  fix t
  assume c: "SpeechCreate v s \<in> set (snd (POST z e req))"
    and r: "speechCreate e v s = Inl t \<or> speechCreate e v s = Inr (Inl t)"
  show "fst (POST z e req) = errorResponse (caughtMessage t) (caughtStatus (caughtMessage t))"
    using c
  proof (rule generation_outcome)
    show "generationCall (SpeechCreate v s)"
      by (simp add: generationCall_def)
  next
    fix m v' src origin
    assume "SpeechCreate v s \<in> set (snd (generate e m v' src origin))"
    from generate_speech [OF this] r
    show "fst (generate e m v' src origin) = Inl t"
      by blast
  qed
qed

lemma dispatch_text:
  "mode d = Text \<Longrightarrow> content d = Some sampleText \<Longrightarrow>
     dispatch e d = generate e Text (voice d) sampleText None"
  by (simp add: dispatch_def withSource_def falsy_def)

lemma tryBlock_textRequest:
  "tryBlock sampleZod e (Inr textRequest) = generate e Text (lit ''alloy'') sampleText None"
  by (simp add: tryBlock_valid [OF safeParse_textRequest] dispatch_text)

lemma trim_blank [simp]: "trim (lit ''   '') = []"
  by (simp add: trim_def isWhiteSpace_def lit_def)

lemma caughtStatus_rateLimited [simp]: "caughtStatus (lit ''429 Rate limit reached'') = 400"
  by (simp add: caughtStatus_def lit_def)

lemma POST_emptyScript:
  "POST sampleZod emptyScriptEnv (Inr textRequest) =
     (errorResponse
        (lit ''Failed to generate a script. Try again with different source material.'') 502,
      [GetOpenAIClient, BuildScriptPrompt, ResponsesCreate sampleText])"
  by (simp add: POST_cases tryBlock_textRequest generate_cases emptyScriptEnv_def okEnv_def
      falsy_def failedScript_def)

lemma POST_generationThrows:
  "POST sampleZod generationThrowsEnv (Inr textRequest) =
     (errorResponse (lit ''429 Rate limit reached'') 400,
      [GetOpenAIClient, BuildScriptPrompt, ResponsesCreate sampleText, ConsoleError rateLimited])"
  by (simp add: POST_cases tryBlock_textRequest generate_cases generationThrowsEnv_def okEnv_def
      caughtMessage_def rateLimited_def)

lemma POST_speechThrows:
  "POST sampleZod speechThrowsEnv (Inr textRequest) =
     (errorResponse (lit ''429 Rate limit reached'') 400,
      [GetOpenAIClient, BuildScriptPrompt, ResponsesCreate sampleText,
       SpeechCreate (lit ''alloy'') sampleScript, ConsoleError rateLimited])"
  by (simp add: POST_cases tryBlock_textRequest generate_cases synthesize_cases
      speechThrowsEnv_def okEnv_def falsy_def caughtMessage_def rateLimited_def)

text \<open>A script of three spaces, and a synthesis call that throws.\<close>

theorem generation_failure_witness:
  "ResponsesCreate sampleText \<in> set (snd (POST sampleZod emptyScriptEnv (Inr textRequest))) \<and>
   responsesCreate emptyScriptEnv sampleText = Inr (Some (lit ''   '')) \<and>
   fst (POST sampleZod emptyScriptEnv (Inr textRequest)) =
     errorResponse
       (lit ''Failed to generate a script. Try again with different source material.'') 502 \<and>
   SpeechCreate (lit ''alloy'') sampleScript \<in>
     set (snd (POST sampleZod speechThrowsEnv (Inr textRequest))) \<and>
   speechCreate speechThrowsEnv (lit ''alloy'') sampleScript = Inl rateLimited \<and>
   fst (POST sampleZod speechThrowsEnv (Inr textRequest)) =
     errorResponse (lit ''429 Rate limit reached'') 400"
proof -
  have a: "ResponsesCreate sampleText \<in> set (snd (POST sampleZod emptyScriptEnv (Inr textRequest)))"
    by (simp add: POST_emptyScript)
  have b: "responsesCreate emptyScriptEnv sampleText = Inr (Some (lit ''   ''))"
    by (simp add: emptyScriptEnv_def okEnv_def)
  have c: "SpeechCreate (lit ''alloy'') sampleScript \<in>
      set (snd (POST sampleZod speechThrowsEnv (Inr textRequest)))"
    by (simp add: POST_speechThrows)
  have d: "speechCreate speechThrowsEnv (lit ''alloy'') sampleScript = Inl rateLimited"
    by (simp add: speechThrowsEnv_def okEnv_def)
  have m: "caughtMessage rateLimited = lit ''429 Rate limit reached''"
    by (simp add: caughtMessage_def rateLimited_def)
  show ?thesis
    using
      generation_failure [of sampleText sampleZod emptyScriptEnv "Inr textRequest"
        "lit ''alloy''" sampleScript]
      generation_failure [of sampleText sampleZod speechThrowsEnv "Inr textRequest"
        "lit ''alloy''" sampleScript]
      a b c d
    by (simp add: m)
qed

text \<open>
  The claim as written fails when the generation call throws, and when the synthesis
  call throws: the status is 400, not 502.
\<close>

theorem generation_failure_counterexample:
  "responsesCreate generationThrowsEnv sampleText = Inl rateLimited \<and>
   POST sampleZod generationThrowsEnv (Inr textRequest) =
     (errorResponse (lit ''429 Rate limit reached'') 400,
      [GetOpenAIClient, BuildScriptPrompt, ResponsesCreate sampleText, ConsoleError rateLimited]) \<and>
   speechCreate speechThrowsEnv (lit ''alloy'') sampleScript = Inl rateLimited \<and>
   POST sampleZod speechThrowsEnv (Inr textRequest) =
     (errorResponse (lit ''429 Rate limit reached'') 400,
      [GetOpenAIClient, BuildScriptPrompt, ResponsesCreate sampleText,
       SpeechCreate (lit ''alloy'') sampleScript, ConsoleError rateLimited])"
proof -
  have "responsesCreate generationThrowsEnv sampleText = Inl rateLimited"
    by (simp add: generationThrowsEnv_def okEnv_def)
  moreover have "speechCreate speechThrowsEnv (lit ''alloy'') sampleScript = Inl rateLimited"
    by (simp add: speechThrowsEnv_def okEnv_def)
  ultimately show ?thesis
    using POST_generationThrows POST_speechThrows by simp
qed

subsection \<open>The voice field\<close>

lemma invalid_voice_rejected:
  assumes "getProp kvs ''voice'' = Some x" and "\<not> validVoice x"
  shows "status (fst (POST z e (Inr (JObj kvs)))) = 400 \<and> snd (POST z e (Inr (JObj kvs))) = []"
proof (cases "safeParse z (JObj kvs)")
  case (Inl issues)
  then show ?thesis by (rule POST_invalid_status)
next
  case (Inr d)
  then have "parseVoice (Some x) = Inr (voice d)"
    using assms(1) by (simp add: safeParse_obj_Inr)
  with assms(2) show ?thesis
    by (simp add: parseVoice_Some)
qed

lemma speech_voice:
  assumes p: "safeParse z j = Inr d"
    and c: "SpeechCreate v s \<in> set (snd (POST z e (Inr j)))"
  shows "v = voice d"
proof -
  have "generationCall (SpeechCreate v s)"
    by (simp add: generationCall_def)
  from POST_generation [OF c this] obtain j' and d' :: parsedData and src origin where
    "Inr j = (Inr j' :: thrown + 'a json)" "safeParse z j' = Inr d'"
    "SpeechCreate v s \<in> set (snd (generate e (mode d') (voice d') src origin))"
    by blast
  with p generate_speech [of v s e "mode d'" "voice d'" src origin] show ?thesis
    by simp
qed

text \<open>
  Claim C8, as amended. An omitted \<open>voice\<close> is parsed as \<^verbatim>\<open>alloy\<close>. A voice that is
  a string of 2 to 32 code units, all of them letters of either case or hyphens
  (\<open>voiceRegex\<close>: the pattern has the \<^verbatim>\<open>i\<close> flag), is accepted as it is. Any other
  voice value is answered with status 400 before any call is made. The voice of the
  parsed request is the one the synthesis is called with.
\<close>

theorem voice_rule:
  "(getProp kvs ''voice'' = None \<longrightarrow> parseVoice (getProp kvs ''voice'') = Inr (lit ''alloy'')) \<and>
   (\<forall>s. getProp kvs ''voice'' = Some (JStr s) \<and> 2 \<le> length s \<and> length s \<le> 32 \<and> voiceRegex s \<longrightarrow>
        parseVoice (getProp kvs ''voice'') = Inr s) \<and>
   (\<forall>x. getProp kvs ''voice'' = Some x \<and> \<not> validVoice x \<longrightarrow>
        status (fst (POST z e (Inr (JObj kvs)))) = 400 \<and> snd (POST z e (Inr (JObj kvs))) = []) \<and>
   (\<forall>d. safeParse z (JObj kvs) = Inr d \<longrightarrow>
        parseVoice (getProp kvs ''voice'') = Inr (voice d) \<and>
        (\<forall>v s. SpeechCreate v s \<in> set (snd (POST z e (Inr (JObj kvs)))) \<longrightarrow> v = voice d))"
proof (intro conjI impI allI)
  assume "getProp kvs ''voice'' = None"
  then show "parseVoice (getProp kvs ''voice'') = Inr (lit ''alloy'')"
    by simp
next
  fix s
  assume "getProp kvs ''voice'' = Some (JStr s) \<and> 2 \<le> length s \<and> length s \<le> 32 \<and> voiceRegex s"
  then show "parseVoice (getProp kvs ''voice'') = Inr s"
    by (simp add: parseVoice_Some validVoice_def)
next
  fix x
  assume a: "getProp kvs ''voice'' = Some x \<and> \<not> validVoice x"
  then show "status (fst (POST z e (Inr (JObj kvs)))) = 400"
    and "snd (POST z e (Inr (JObj kvs))) = []"
    using invalid_voice_rejected [of kvs x z e] by simp_all
next
  fix d
  assume "safeParse z (JObj kvs) = Inr d"
  then show "parseVoice (getProp kvs ''voice'') = Inr (voice d)"
    by (simp add: safeParse_obj_Inr)
next
  fix d v s
  assume "safeParse z (JObj kvs) = Inr d"
    and "SpeechCreate v s \<in> set (snd (POST z e (Inr (JObj kvs))))"
  then show "v = voice d"
    by (rule speech_voice)
qed

lemma safeParse_upperVoice:
  "safeParse sampleZod upperVoiceRequest =
     Inr \<lparr>mode = Text, voice = lit ''ALLOY'', content = Some sampleText, url = None, videoUrl = None\<rparr>"
proof -
  have "validVoice (JStr (lit ''ALLOY'') :: nat json)"
    by (simp add: validVoice_def voiceRegex_def isVoiceChar_def lit_def)
  then show ?thesis
    by (simp add: safeParse_obj_Inr upperVoiceRequest_def parseContent_def parseVoice_Some)
qed

lemma generate_okEnv:
  "generate okEnv Text v sampleText None =
     (Inr (okResponse sampleScript (lit ''SUQz'')),
      [GetOpenAIClient, BuildScriptPrompt, ResponsesCreate sampleText,
       SpeechCreate v sampleScript, ArrayBuffer])"
  by (simp add: generate_cases synthesize_cases okEnv_def falsy_def)

lemma POST_upperVoice:
  "POST sampleZod okEnv (Inr upperVoiceRequest) =
     (okResponse sampleScript (lit ''SUQz''),
      [GetOpenAIClient, BuildScriptPrompt, ResponsesCreate sampleText,
       SpeechCreate (lit ''ALLOY'') sampleScript, ArrayBuffer])"
  by (rule POST_valid [OF safeParse_upperVoice]) (simp add: dispatch_text generate_okEnv)

lemma POST_textRequest:
  "POST sampleZod okEnv (Inr textRequest) =
     (okResponse sampleScript (lit ''SUQz''),
      [GetOpenAIClient, BuildScriptPrompt, ResponsesCreate sampleText,
       SpeechCreate (lit ''alloy'') sampleScript, ArrayBuffer])"
  by (rule POST_valid [OF safeParse_textRequest]) (simp add: dispatch_text generate_okEnv)

text \<open>No voice, the voice \<^verbatim>\<open>a1\<close>, and the voice \<^verbatim>\<open>ALLOY\<close>.\<close>

theorem voice_rule_witness:
  "getProp [(lit ''mode'', JStr (lit ''text'')), (lit ''content'', JStr sampleText)] ''voice''
     = (None :: nat json option) \<and>
   parseVoice (None :: nat json option) = Inr (lit ''alloy'') \<and>
   SpeechCreate (lit ''alloy'') sampleScript \<in> set (snd (POST sampleZod okEnv (Inr textRequest))) \<and>
   \<not> validVoice (JStr (lit ''a1'') :: nat json) \<and>
   status (fst (POST sampleZod okEnv (Inr badVoiceShortText))) = 400 \<and>
   snd (POST sampleZod okEnv (Inr badVoiceShortText)) = [] \<and>
   voiceRegex (lit ''ALLOY'') \<and>
   parseVoice (Some (JStr (lit ''ALLOY'')) :: nat json option) = Inr (lit ''ALLOY'')"
proof -
  have a: "getProp [(lit ''mode'', JStr (lit ''text'')), (lit ''content'', JStr sampleText)] ''voice''
     = (None :: nat json option)"
    by simp
  have b: "getProp [(lit ''mode'', JStr (lit ''text'')), (lit ''voice'', JStr (lit ''a1'')),
           (lit ''content'', JStr (lit ''short''))] ''voice'' = Some (JStr (lit ''a1'') :: nat json)"
    by simp
  have c: "\<not> validVoice (JStr (lit ''a1'') :: nat json)"
    by (simp add: validVoice_def voiceRegex_def isVoiceChar_def lit_def)
  have d: "getProp [(lit ''mode'', JStr (lit ''text'')), (lit ''voice'', JStr (lit ''ALLOY'')),
           (lit ''content'', JStr sampleText)] ''voice'' = Some (JStr (lit ''ALLOY'') :: nat json)"
    by simp
  have f: "voiceRegex (lit ''ALLOY'')" "length (lit ''ALLOY'') = 5"
    by (simp_all add: voiceRegex_def isVoiceChar_def lit_def)
  have g: "SpeechCreate (lit ''alloy'') sampleScript \<in> set (snd (POST sampleZod okEnv (Inr textRequest)))"
    by (simp add: POST_textRequest)
  show ?thesis
    using
      voice_rule [of "[(lit ''mode'', JStr (lit ''text'')), (lit ''content'', JStr sampleText)]"
        sampleZod okEnv]
      voice_rule [of "[(lit ''mode'', JStr (lit ''text'')), (lit ''voice'', JStr (lit ''a1'')),
           (lit ''content'', JStr (lit ''short''))]" sampleZod okEnv]
      voice_rule [of "[(lit ''mode'', JStr (lit ''text'')), (lit ''voice'', JStr (lit ''ALLOY'')),
           (lit ''content'', JStr sampleText)]" sampleZod okEnv]
      a b c d f g
    by (simp add: badVoiceShortText_def)
qed

text \<open>
  The claim as written fails at the voice \<^verbatim>\<open>ALLOY\<close>: it does not match
  \<^verbatim>\<open>^[a-z-]+$\<close>, and the request is served with status 200, the synthesis being
  called with that voice.
\<close>

theorem voice_rule_counterexample:
  "\<not> specVoicePattern (lit ''ALLOY'') \<and>
   POST sampleZod okEnv (Inr upperVoiceRequest) =
     (okResponse sampleScript (lit ''SUQz''),
      [GetOpenAIClient, BuildScriptPrompt, ResponsesCreate sampleText,
       SpeechCreate (lit ''ALLOY'') sampleScript, ArrayBuffer]) \<and>
   status (okResponse sampleScript (lit ''SUQz'')) = 200"
proof -
  have "\<not> specVoicePattern (lit ''ALLOY'')"
    by (simp add: specVoicePattern_def lit_def)
  then show ?thesis
    using POST_upperVoice by (simp add: okResponse_def)
qed

end
